theory Spec2Isabelle
  imports Complex_Main "HOL-Library.AList"
begin

unbundle bit_operations_syntax

section \<open>Python values\<close>

text \<open>
  The attributes of a Home Assistant state and the keyword arguments of a service call
  are dynamically typed. The values the model ranges over are \<open>None\<close>, integers, floats,
  strings, tuples of numbers (an \<open>hs_color\<close>) and lists of strings (an \<open>effect_list\<close>, a
  list of entity ids). Python integers are unbounded (\<open>int\<close>). Python floats are
  idealised as exact rationals: a float operation is modelled by the exact operation
  on \<open>rat\<close>, with no rounding, infinities or NaN.
\<close>

datatype error = TypeError | ValueError | ZeroDivisionError | IndexError

datatype pynum = PyInt int | PyFloat rat

datatype pyval =
    PyNone
  | PyNum pynum
  | PyStr string
  | PyTuple "pynum list"
  | PyList "string list"

text \<open>A Python \<open>dict\<close> with string keys, in insertion order.\<close>

type_synonym pydict = "(string \<times> pyval) list"

text \<open>\<open>d.get(key)\<close>: the value stored under the key, \<open>None\<close> when there is none.\<close>

definition dict_get :: "pydict \<Rightarrow> string \<Rightarrow> pyval" where
  "dict_get d key = (case map_of d key of None \<Rightarrow> PyNone | Some v \<Rightarrow> v)"

text \<open>Sequencing of computations that may raise: the first exception propagates.\<close>

definition ebind :: "error + 'a \<Rightarrow> ('a \<Rightarrow> error + 'b) \<Rightarrow> error + 'b" where
  "ebind m f = (case m of Inl e \<Rightarrow> Inl e | Inr v \<Rightarrow> f v)"

fun sequence_err :: "(error + 'a) list \<Rightarrow> error + 'a list" where
  "sequence_err [] = Inr []"
| "sequence_err (m # ms) = ebind m (\<lambda>v. ebind (sequence_err ms) (\<lambda>vs. Inr (v # vs)))"

subsection \<open>Numbers\<close>

fun num_val :: "pynum \<Rightarrow> rat" where
  "num_val (PyInt i) = of_int i"
| "num_val (PyFloat q) = q"

text \<open>\<open>a + b\<close> on numbers: an integer when both are, a float otherwise.\<close>

fun num_add :: "pynum \<Rightarrow> pynum \<Rightarrow> pynum" where
  "num_add (PyInt a) (PyInt b) = PyInt (a + b)"
| "num_add a b = PyFloat (num_val a + num_val b)"

text \<open>
  \<open>sum(args)\<close>: starts from the integer 0 and adds the items from the left; adding a
  value that is not a number to a number raises \<open>TypeError\<close>.
\<close>

fun py_sum_from :: "pynum \<Rightarrow> pyval list \<Rightarrow> error + pynum" where
  "py_sum_from acc [] = Inr acc"
| "py_sum_from acc (PyNum n # vs) = py_sum_from (num_add acc n) vs"
| "py_sum_from acc (v # vs) = Inl TypeError"

definition py_sum :: "pyval list \<Rightarrow> error + pynum" where
  "py_sum vs = py_sum_from (PyInt 0) vs"

text \<open>\<open>s / n\<close> with \<open>n = len(...)\<close>: true division, always a float.\<close>

definition true_div :: "pynum \<Rightarrow> nat \<Rightarrow> error + pynum" where
  "true_div s n = (if n = 0 then Inl ZeroDivisionError else Inr (PyFloat (num_val s / of_nat n)))"

text \<open>\<open>int(x)\<close> on a number: truncation towards zero.\<close>

definition trunc_rat :: "rat \<Rightarrow> int" where
  "trunc_rat q = (if q < 0 then \<lceil>q\<rceil> else \<lfloor>q\<rfloor>)"

fun py_int :: "pynum \<Rightarrow> pynum" where
  "py_int (PyInt i) = PyInt i"
| "py_int (PyFloat q) = PyInt (trunc_rat q)"

subsection \<open>Equality, order, iteration, hashing\<close>

text \<open>\<open>a == b\<close>: numbers compare by value (\<open>1 == 1.0\<close>), everything else structurally.\<close>

fun py_eq :: "pyval \<Rightarrow> pyval \<Rightarrow> bool" where
  "py_eq (PyNum a) (PyNum b) = (num_val a = num_val b)"
| "py_eq (PyTuple a) (PyTuple b) = (map num_val a = map num_val b)"
| "py_eq a b = (a = b)"

text \<open>
  Sequences are ordered lexicographically: the first position where the items differ
  decides, and a proper prefix is smaller.
\<close>

fun lex_lt :: "('a \<Rightarrow> 'a \<Rightarrow> bool) \<Rightarrow> 'a list \<Rightarrow> 'a list \<Rightarrow> bool" where
  "lex_lt lt [] [] = False"
| "lex_lt lt [] (y # ys) = True"
| "lex_lt lt (x # xs) [] = False"
| "lex_lt lt (x # xs) (y # ys) = (if x = y then lex_lt lt xs ys else lt x y)"

definition str_lt :: "string \<Rightarrow> string \<Rightarrow> bool" where
  "str_lt a b = lex_lt (\<lambda>x y. (of_char x :: nat) < of_char y) a b"

text \<open>\<open>a < b\<close>: defined within one kind of value, \<open>TypeError\<close> across kinds and on \<open>None\<close>.\<close>

fun py_lt :: "pyval \<Rightarrow> pyval \<Rightarrow> error + bool" where
  "py_lt (PyNum a) (PyNum b) = Inr (num_val a < num_val b)"
| "py_lt (PyStr a) (PyStr b) = Inr (str_lt a b)"
| "py_lt (PyTuple a) (PyTuple b) = Inr (lex_lt (<) (map num_val a) (map num_val b))"
| "py_lt (PyList a) (PyList b) = Inr (lex_lt str_lt a b)"
| "py_lt a b = Inl TypeError"

text \<open>\<open>iter(v)\<close>: the items of a string, tuple or list; \<open>TypeError\<close> on a number or \<open>None\<close>.\<close>

fun py_iter :: "pyval \<Rightarrow> error + pyval list" where
  "py_iter (PyStr s) = Inr (map (\<lambda>c. PyStr [c]) s)"
| "py_iter (PyTuple ns) = Inr (map PyNum ns)"
| "py_iter (PyList ss) = Inr (map PyStr ss)"
| "py_iter v = Inl TypeError"

text \<open>A list is unhashable; every other value of the model can be a dict key or set member.\<close>

fun py_hashable :: "pyval \<Rightarrow> bool" where
  "py_hashable (PyList ss) = False"
| "py_hashable v = True"

subsection \<open>Built-ins used by the reducers\<close>

text \<open>
  \<open>zip(*args)\<close> on already iterated arguments: the columns, up to the length of the
  shortest argument; no column at all for no argument.
\<close>

definition zip_star :: "'a list list \<Rightarrow> 'a list list" where
  "zip_star xss = (case xss of [] \<Rightarrow> []
     | xs # rest \<Rightarrow> map (\<lambda>i. map (\<lambda>ys. ys ! i) xss) [0 ..< fold min (map length rest) (length xs)])"

text \<open>
  \<open>min(a, b, ...)\<close> and \<open>max(a, b, ...)\<close>: the running best is replaced when
  \<open>item < best\<close> (\<open>item > best\<close> for \<open>max\<close>), so the first extremal item wins. With a
  single argument the argument itself is iterated.
\<close>

fun min_items :: "pyval \<Rightarrow> pyval list \<Rightarrow> error + pyval" where
  "min_items best [] = Inr best"
| "min_items best (item # items) =
     ebind (py_lt item best) (\<lambda>lt. min_items (if lt then item else best) items)"

fun max_items :: "pyval \<Rightarrow> pyval list \<Rightarrow> error + pyval" where
  "max_items best [] = Inr best"
| "max_items best (item # items) =
     ebind (py_lt best item) (\<lambda>gt. max_items (if gt then item else best) items)"

definition py_min :: "pyval list \<Rightarrow> error + pyval" where
  "py_min args = (case args of
       [] \<Rightarrow> Inl TypeError
     | [a] \<Rightarrow> ebind (py_iter a) (\<lambda>xs. case xs of [] \<Rightarrow> Inl ValueError | x # rest \<Rightarrow> min_items x rest)
     | a # rest \<Rightarrow> min_items a rest)"

definition py_max :: "pyval list \<Rightarrow> error + pyval" where
  "py_max args = (case args of
       [] \<Rightarrow> Inl TypeError
     | [a] \<Rightarrow> ebind (py_iter a) (\<lambda>xs. case xs of [] \<Rightarrow> Inl ValueError | x # rest \<Rightarrow> max_items x rest)
     | a # rest \<Rightarrow> max_items a rest)"

text \<open>
  A Python \<open>set\<close>, as the list of its members without repetition. Python leaves the
  iteration order of a set unspecified; the list here is in order of first insertion
  and nothing below depends on that order.
\<close>

definition set_add :: "pyval \<Rightarrow> pyval list \<Rightarrow> pyval list" where
  "set_add x s = (if list_ex (\<lambda>y. py_eq y x) s then s else s @ [x])"

text \<open>\<open>set().union(*others)\<close>: every argument is iterated and its items are added.\<close>

fun set_union_from :: "pyval list \<Rightarrow> pyval list \<Rightarrow> error + pyval list" where
  "set_union_from s [] = Inr s"
| "set_union_from s (other # others) =
     ebind (py_iter other) (\<lambda>items. set_union_from (fold set_add items s) others)"

definition set_union :: "pyval list \<Rightarrow> error + pyval list" where
  "set_union others = set_union_from [] others"

text \<open>
  \<open>collections.Counter(iterable)\<close>: a dict from item to count, in order of first
  occurrence; an unhashable item raises \<open>TypeError\<close>.
\<close>

fun counter_incr :: "pyval \<Rightarrow> (pyval \<times> nat) list \<Rightarrow> (pyval \<times> nat) list" where
  "counter_incr x [] = [(x, 1)]"
| "counter_incr x ((k, c) # kcs) =
     (if py_eq k x then (k, c + 1) # kcs else (k, c) # counter_incr x kcs)"

fun Counter_from :: "(pyval \<times> nat) list \<Rightarrow> pyval list \<Rightarrow> error + (pyval \<times> nat) list" where
  "Counter_from cnt [] = Inr cnt"
| "Counter_from cnt (x # xs) =
     (if py_hashable x then Counter_from (counter_incr x cnt) xs else Inl TypeError)"

definition Counter :: "pyval list \<Rightarrow> error + (pyval \<times> nat) list" where
  "Counter xs = Counter_from [] xs"

text \<open>
  \<open>most_common(1)\<close> is \<open>heapq.nlargest(1, items, key=count)\<close>, which is
  \<open>max(items, key=count)\<close>: the first item of the largest count, or nothing for an
  empty counter.
\<close>

fun max_by_count :: "(pyval \<times> nat) \<Rightarrow> (pyval \<times> nat) list \<Rightarrow> (pyval \<times> nat)" where
  "max_by_count best [] = best"
| "max_by_count best (item # items) =
     max_by_count (if snd best < snd item then item else best) items"

definition most_common1 :: "(pyval \<times> nat) list \<Rightarrow> (pyval \<times> nat) list" where
  "most_common1 cnt = (case cnt of [] \<Rightarrow> [] | item # items \<Rightarrow> [max_by_count item items])"

section \<open>Home Assistant: states, service calls, constants\<close>

text \<open>
  The names below are imported by \<open>light.py\<close> from Home Assistant
  (\<open>homeassistant.const\<close>, \<open>homeassistant.components.light\<close>); the strings are the
  values Home Assistant gives them. The \<open>SUPPORT_*\<close> feature flags are left as a
  parameter of the model.
\<close>

definition STATE_ON :: string where "STATE_ON = ''on''"
definition STATE_UNAVAILABLE :: string where "STATE_UNAVAILABLE = ''unavailable''"
definition ATTR_ENTITY_ID :: string where "ATTR_ENTITY_ID = ''entity_id''"
definition ATTR_SUPPORTED_FEATURES :: string where "ATTR_SUPPORTED_FEATURES = ''supported_features''"
definition ATTR_BRIGHTNESS :: string where "ATTR_BRIGHTNESS = ''brightness''"
definition ATTR_HS_COLOR :: string where "ATTR_HS_COLOR = ''hs_color''"
definition ATTR_WHITE_VALUE :: string where "ATTR_WHITE_VALUE = ''white_value''"
definition ATTR_COLOR_TEMP :: string where "ATTR_COLOR_TEMP = ''color_temp''"
definition ATTR_MIN_MIREDS :: string where "ATTR_MIN_MIREDS = ''min_mireds''"
definition ATTR_MAX_MIREDS :: string where "ATTR_MAX_MIREDS = ''max_mireds''"
definition ATTR_EFFECT_LIST :: string where "ATTR_EFFECT_LIST = ''effect_list''"
definition ATTR_EFFECT :: string where "ATTR_EFFECT = ''effect''"
definition ATTR_FLASH :: string where "ATTR_FLASH = ''flash''"
definition ATTR_TRANSITION :: string where "ATTR_TRANSITION = ''transition''"
definition DOMAIN :: string where "DOMAIN = ''light''"
definition SERVICE_TURN_ON :: string where "SERVICE_TURN_ON = ''turn_on''"
definition SERVICE_TURN_OFF :: string where "SERVICE_TURN_OFF = ''turn_off''"

record light_consts =
  SUPPORT_BRIGHTNESS :: int
  SUPPORT_COLOR_TEMP :: int
  SUPPORT_EFFECT :: int
  SUPPORT_FLASH :: int
  SUPPORT_COLOR :: int
  SUPPORT_TRANSITION :: int
  SUPPORT_WHITE_VALUE :: int

definition SUPPORT_GROUP_LIGHT :: "light_consts \<Rightarrow> int" where
  "SUPPORT_GROUP_LIGHT lc =
     (SUPPORT_BRIGHTNESS lc
      OR SUPPORT_COLOR_TEMP lc
      OR SUPPORT_EFFECT lc
      OR SUPPORT_FLASH lc
      OR SUPPORT_COLOR lc
      OR SUPPORT_TRANSITION lc
      OR SUPPORT_WHITE_VALUE lc)"

text \<open>A \<open>homeassistant.core.State\<close>: the snapshot of one entity.\<close>

record State =
  entity_id :: string
  state :: string
  attributes :: pydict

text \<open>One \<open>hass.services.async_call(domain, service, service_data, blocking)\<close>.\<close>

record ServiceCall =
  domain :: string
  service :: string
  service_data :: pydict
  blocking :: bool

text \<open>
  The part of \<open>hass\<close> the group uses: the state machine (\<open>hass.states.get\<close>) and the
  service registry, modelled by the log of the calls made so far.
\<close>

record HomeAssistant =
  hass_states :: "string \<Rightarrow> State option"
  service_calls :: "ServiceCall list"

section \<open>The light group\<close>

text \<open>
  The fields of \<open>AdvancedLightGroup\<close>, without the leading underscore of the source. The
  handle of the state-change subscription (\<open>_async_unsub_state_changed\<close>) is left out:
  registering and removing the callback is not modelled.
\<close>

record AdvancedLightGroup =
  name :: string
  main_lights :: "string list"
  aux_lights :: "string list"
  entity_ids :: "string list"
  is_on :: bool
  main_lights_on :: bool
  available :: bool
  brightness :: pyval
  hs_color :: pyval
  color_temp :: pyval
  min_mireds :: pyval
  max_mireds :: pyval
  white_value :: pyval
  effect_list :: "pyval list option"
  effect :: pyval
  supported_features :: int

text \<open>\<open>AdvancedLightGroup.__init__\<close>\<close>

definition init :: "string \<Rightarrow> string list \<Rightarrow> string list \<Rightarrow> AdvancedLightGroup" where
  "init nm main_lights' aux_lights' =
     \<lparr>name = nm,
      main_lights = main_lights',
      aux_lights = aux_lights',
      entity_ids = main_lights' @ aux_lights',
      is_on = False,
      main_lights_on = False,
      available = False,
      brightness = PyNone,
      hs_color = PyNone,
      color_temp = PyNone,
      min_mireds = PyNum (PyInt 154),
      max_mireds = PyNum (PyInt 500),
      white_value = PyNone,
      effect_list = None,
      effect = PyNone,
      supported_features = 0\<rparr>"

subsection \<open>Module-level helpers\<close>

text \<open>\<open>_find_state_attributes\<close>: the values under the key that are not \<open>None\<close>.\<close>

definition find_state_attributes :: "State list \<Rightarrow> string \<Rightarrow> pyval list" where
  "find_state_attributes states key =
     filter (\<lambda>value. value \<noteq> PyNone) (map (\<lambda>st. dict_get (attributes st) key) states)"

text \<open>\<open>_mean_int\<close>: \<open>int(sum(args) / len(args))\<close>\<close>

definition mean_int :: "pyval list \<Rightarrow> error + pyval" where
  "mean_int args =
     ebind (py_sum args) (\<lambda>s.
     ebind (true_div s (length args)) (\<lambda>q.
     Inr (PyNum (py_int q))))"

text \<open>\<open>_mean_tuple\<close>: \<open>tuple(sum(l) / len(l) for l in zip(*args))\<close>\<close>

definition mean_tuple :: "pyval list \<Rightarrow> error + pyval" where
  "mean_tuple args =
     ebind (sequence_err (map py_iter args)) (\<lambda>iters.
     ebind (sequence_err (map (\<lambda>l. ebind (py_sum l) (\<lambda>s. true_div s (length l))) (zip_star iters)))
       (\<lambda>means.
     Inr (PyTuple means)))"

text \<open>\<open>_reduce_attribute\<close>\<close>

definition reduce_attribute ::
  "State list \<Rightarrow> string \<Rightarrow> pyval \<Rightarrow> (pyval list \<Rightarrow> error + pyval) \<Rightarrow> error + pyval" where
  "reduce_attribute states key default' reduce =
     (let attrs = find_state_attributes states key
      in if attrs = [] then Inr default'
         else if length attrs = 1 then Inr (hd attrs)
         else reduce attrs)"

subsection \<open>Queries on the members\<close>

text \<open>\<open>_get_states_and_on_states\<close>: members without a state are dropped.\<close>

definition get_states_and_on_states ::
  "AdvancedLightGroup \<Rightarrow> HomeAssistant \<Rightarrow> State list \<times> State list" where
  "get_states_and_on_states self hass =
     (let all_states = map (hass_states hass) (entity_ids self);
          states = List.map_filter id all_states
      in (states, filter (\<lambda>st. state st = STATE_ON) states))"

text \<open>\<open>_get_turned_on_entities\<close>\<close>

definition get_turned_on_entities :: "AdvancedLightGroup \<Rightarrow> HomeAssistant \<Rightarrow> string list" where
  "get_turned_on_entities self hass =
     (let (states, on_states) = get_states_and_on_states self hass
      in map entity_id on_states)"

subsection \<open>\<open>async_update\<close>\<close>

text \<open>
  The loop merging the supported features: \<open>self._supported_features |= support\<close>
  for every reported value; \<open>|\<close> is defined on integers only.
\<close>

fun merge_supported_features :: "int \<Rightarrow> pyval list \<Rightarrow> error + int" where
  "merge_supported_features acc [] = Inr acc"
| "merge_supported_features acc (PyNum (PyInt support) # rest) =
     merge_supported_features (acc OR support) rest"
| "merge_supported_features acc (v # rest) = Inl TypeError"

text \<open>
  The fields are assigned in the order of the source. When a reducer raises, the
  exception leaves \<open>async_update\<close>: the result is \<open>Inl\<close>, and the fields assigned before
  the exception are not described.
\<close>

definition async_update ::
  "light_consts \<Rightarrow> AdvancedLightGroup \<Rightarrow> HomeAssistant \<Rightarrow> error + AdvancedLightGroup" where
  "async_update lc self hass =
     (let (states, on_states) = get_states_and_on_states self hass;
          turned_on_lights = get_turned_on_entities self hass;
          is_on' = (0 < length on_states);
          main_lights_on' =
            list_ex (\<lambda>main_light. main_light \<in> set turned_on_lights) (main_lights self);
          available' = list_ex (\<lambda>st. state st \<noteq> STATE_UNAVAILABLE) states
      in
      ebind (reduce_attribute on_states ATTR_BRIGHTNESS PyNone mean_int) (\<lambda>brightness'.
      ebind (reduce_attribute on_states ATTR_HS_COLOR PyNone mean_tuple) (\<lambda>hs_color'.
      ebind (reduce_attribute on_states ATTR_WHITE_VALUE PyNone mean_int) (\<lambda>white_value'.
      ebind (reduce_attribute on_states ATTR_COLOR_TEMP PyNone mean_int) (\<lambda>color_temp'.
      ebind (reduce_attribute states ATTR_MIN_MIREDS (PyNum (PyInt 154)) py_min) (\<lambda>min_mireds'.
      ebind (reduce_attribute states ATTR_MAX_MIREDS (PyNum (PyInt 500)) py_max) (\<lambda>max_mireds'.
      ebind (let all_effect_lists = find_state_attributes states ATTR_EFFECT_LIST
             in if all_effect_lists \<noteq> []
                then ebind (set_union all_effect_lists) (\<lambda>u. Inr (Some u))
                else Inr None) (\<lambda>effect_list'.
      ebind (let all_effects = find_state_attributes on_states ATTR_EFFECT
             in if all_effects \<noteq> []
                then ebind (Counter all_effects) (\<lambda>effects_count.
                       case most_common1 effects_count of
                         [] \<Rightarrow> Inl IndexError
                       | (k, c) # others \<Rightarrow> Inr k)
                else Inr PyNone) (\<lambda>effect'.
      ebind (merge_supported_features 0 (find_state_attributes states ATTR_SUPPORTED_FEATURES))
        (\<lambda>features.
      Inr (self\<lparr>is_on := is_on',
                main_lights_on := main_lights_on',
                available := available',
                brightness := brightness',
                hs_color := hs_color',
                white_value := white_value',
                color_temp := color_temp',
                min_mireds := min_mireds',
                max_mireds := max_mireds',
                effect_list := effect_list',
                effect := effect',
                supported_features := features AND SUPPORT_GROUP_LIGHT lc\<rparr>)))))))))))"

subsection \<open>Commands\<close>

text \<open>\<open>if key in kwargs: data[key] = kwargs[key]\<close>\<close>

definition copy_key :: "string \<Rightarrow> pydict \<Rightarrow> pydict \<Rightarrow> pydict" where
  "copy_key key kwargs data =
     (case map_of kwargs key of None \<Rightarrow> data | Some v \<Rightarrow> AList.update key v data)"

text \<open>The payload \<open>async_turn_on\<close> forwards: its \<open>data\<close> before the target is chosen.\<close>

definition turn_on_data :: "pydict \<Rightarrow> pydict" where
  "turn_on_data kwargs =
     (copy_key ATTR_FLASH kwargs
     (copy_key ATTR_TRANSITION kwargs
     (copy_key ATTR_EFFECT kwargs
     (copy_key ATTR_WHITE_VALUE kwargs
     (copy_key ATTR_COLOR_TEMP kwargs
     (copy_key ATTR_HS_COLOR kwargs
     (copy_key ATTR_BRIGHTNESS kwargs [])))))))"

text \<open>\<open>hass.services.async_call\<close>: the call is appended to the log.\<close>

definition async_call ::
  "HomeAssistant \<Rightarrow> string \<Rightarrow> string \<Rightarrow> pydict \<Rightarrow> bool \<Rightarrow> HomeAssistant" where
  "async_call hass domain' service' service_data' blocking' =
     hass\<lparr>service_calls := service_calls hass @
       [\<lparr>domain = domain', service = service', service_data = service_data',
         blocking = blocking'\<rparr>]\<rparr>"

definition async_turn_on :: "AdvancedLightGroup \<Rightarrow> HomeAssistant \<Rightarrow> pydict \<Rightarrow> HomeAssistant" where
  "async_turn_on self hass kwargs =
     (let data = turn_on_data kwargs;
          data = (if \<not> is_on self \<or> data = []
                  then AList.update ATTR_ENTITY_ID (PyList (main_lights self)) data
                  else AList.update ATTR_ENTITY_ID (PyList (get_turned_on_entities self hass)) data)
      in async_call hass DOMAIN SERVICE_TURN_ON data True)"

definition async_turn_off :: "AdvancedLightGroup \<Rightarrow> HomeAssistant \<Rightarrow> pydict \<Rightarrow> HomeAssistant" where
  "async_turn_off self hass kwargs =
     (let data = [(ATTR_ENTITY_ID, PyList (entity_ids self))];
          data = copy_key ATTR_TRANSITION kwargs data
      in async_call hass DOMAIN SERVICE_TURN_OFF data True)"

definition async_toggle :: "AdvancedLightGroup \<Rightarrow> HomeAssistant \<Rightarrow> pydict \<Rightarrow> HomeAssistant" where
  "async_toggle self hass kwargs =
     (if main_lights_on self
      then async_turn_off self hass kwargs
      else async_turn_on self hass kwargs)"

section \<open>Example configurations\<close>

text \<open>The feature flags as Home Assistant defines them.\<close>

definition ha_light_consts :: light_consts where
  "ha_light_consts =
     \<lparr>SUPPORT_BRIGHTNESS = 1, SUPPORT_COLOR_TEMP = 2, SUPPORT_EFFECT = 4, SUPPORT_FLASH = 8,
      SUPPORT_COLOR = 16, SUPPORT_TRANSITION = 32, SUPPORT_WHITE_VALUE = 128\<rparr>"

text \<open>
  A group with one main light that is off and one auxiliary light that is on; both
  report feature bits outside \<open>SUPPORT_GROUP_LIGHT\<close>.
\<close>

definition demo_hass :: HomeAssistant where
  "demo_hass =
     \<lparr>hass_states =
        [''light.a'' \<mapsto> \<lparr>entity_id = ''light.a'', state = ''off'',
            attributes = [(''supported_features'', PyNum (PyInt 65))]\<rparr>,
         ''light.b'' \<mapsto> \<lparr>entity_id = ''light.b'', state = ''on'',
            attributes = [(''brightness'', PyNum (PyInt 120)),
                          (''supported_features'', PyNum (PyInt 258))]\<rparr>],
      service_calls = []\<rparr>"

definition demo_group :: AdvancedLightGroup where
  "demo_group = init ''Demo'' [''light.a''] [''light.b'']"

definition demo_group_updated :: AdvancedLightGroup where
  "demo_group_updated =
     demo_group\<lparr>is_on := True, main_lights_on := False, available := True,
       brightness := PyNum (PyInt 120),
       supported_features := 3\<rparr>"

text \<open>
  A group of three lights that are all on: two main lights reporting brightness 100
  and 101, and effects \<open>A\<close>, \<open>B\<close>, \<open>A\<close> in the order of the members.
\<close>

definition trio_hass :: HomeAssistant where
  "trio_hass =
     \<lparr>hass_states =
        [''light.a'' \<mapsto> \<lparr>entity_id = ''light.a'', state = ''on'',
            attributes = [(''brightness'', PyNum (PyInt 100)),
                          (''hs_color'', PyTuple [PyFloat 10, PyFloat 20]),
                          (''min_mireds'', PyNum (PyInt 153)),
                          (''max_mireds'', PyNum (PyInt 400)),
                          (''effect'', PyStr ''A'')]\<rparr>,
         ''light.b'' \<mapsto> \<lparr>entity_id = ''light.b'', state = ''on'',
            attributes = [(''brightness'', PyNum (PyInt 101)),
                          (''hs_color'', PyTuple [PyFloat 20, PyFloat 40]),
                          (''min_mireds'', PyNum (PyInt 160)),
                          (''max_mireds'', PyNum (PyInt 450)),
                          (''effect'', PyStr ''B'')]\<rparr>,
         ''light.c'' \<mapsto> \<lparr>entity_id = ''light.c'', state = ''on'',
            attributes = [(''color_temp'', PyNum (PyInt 300)),
                          (''effect'', PyStr ''A'')]\<rparr>],
      service_calls = []\<rparr>"

definition trio_group :: AdvancedLightGroup where
  "trio_group = init ''Trio'' [''light.a'', ''light.b''] [''light.c'']"

definition trio_group_updated :: AdvancedLightGroup where
  "trio_group_updated =
     trio_group\<lparr>is_on := True, main_lights_on := True, available := True,
       brightness := PyNum (PyInt 100),
       hs_color := PyTuple [PyFloat 15, PyFloat 30],
       color_temp := PyNum (PyInt 300),
       min_mireds := PyNum (PyInt 153),
       max_mireds := PyNum (PyInt 450),
       effect := PyStr ''A''\<rparr>"

text \<open>
  Two lights reporting effect lists, for a group of both and for a group of the
  first alone.
\<close>

definition effects_hass :: HomeAssistant where
  "effects_hass =
     \<lparr>hass_states =
        [''light.a'' \<mapsto> \<lparr>entity_id = ''light.a'', state = ''on'',
            attributes = [(''effect_list'', PyList [''colorloop'', ''random''])]\<rparr>,
         ''light.b'' \<mapsto> \<lparr>entity_id = ''light.b'', state = ''off'',
            attributes = [(''effect_list'', PyList [''random'', ''strobe''])]\<rparr>],
      service_calls = []\<rparr>"

definition effects_pair :: AdvancedLightGroup where
  "effects_pair = init ''Pair'' [''light.a''] [''light.b'']"

definition effects_single :: AdvancedLightGroup where
  "effects_single = init ''Single'' [''light.a''] []"

text \<open>A group whose auxiliary list repeats a main light.\<close>

definition dup_hass :: HomeAssistant where
  "dup_hass =
     \<lparr>hass_states =
        [''light.a'' \<mapsto> \<lparr>entity_id = ''light.a'', state = ''on'',
            attributes = [(''brightness'', PyNum (PyInt 100))]\<rparr>,
         ''light.b'' \<mapsto> \<lparr>entity_id = ''light.b'', state = ''on'',
            attributes = [(''brightness'', PyNum (PyInt 106))]\<rparr>],
      service_calls = []\<rparr>"

definition dup_group :: AdvancedLightGroup where
  "dup_group = init ''Dup'' [''light.a'', ''light.b''] [''light.a'']"

definition dup_group_updated :: AdvancedLightGroup where
  "dup_group_updated =
     dup_group\<lparr>is_on := True, main_lights_on := True, available := True,
       brightness := PyNum (PyInt 102)\<rparr>"

text \<open>Two lights that are on and report a string as their brightness.\<close>

definition malformed_hass :: HomeAssistant where
  "malformed_hass =
     \<lparr>hass_states =
        [''light.a'' \<mapsto> \<lparr>entity_id = ''light.a'', state = ''on'',
            attributes = [(''brightness'', PyStr ''high'')]\<rparr>,
         ''light.b'' \<mapsto> \<lparr>entity_id = ''light.b'', state = ''on'',
            attributes = [(''brightness'', PyStr ''low'')]\<rparr>],
      service_calls = []\<rparr>"

definition malformed_group :: AdvancedLightGroup where
  "malformed_group = init ''Malformed'' [''light.a'', ''light.b''] []"

section \<open>Verification\<close>

subsection \<open>Commands\<close>

lemma ebind_Inl [simp]: "ebind (Inl e) f = Inl e"
  by (simp add: ebind_def)

lemma ebind_Inr [simp]: "ebind (Inr v) f = f v"
  by (simp add: ebind_def)

lemma ebind_eq_Inr: "ebind m f = Inr y \<longleftrightarrow> (\<exists>v. m = Inr v \<and> f v = Inr y)"
  by (cases m) simp_all

lemma copy_key_map_of:
  "map_of (copy_key k kwargs data) key =
     (if key = k \<and> map_of kwargs k \<noteq> None then map_of kwargs k else map_of data key)"
  by (auto simp: copy_key_def update_conv' split: option.splits)

lemma copy_key_eq_Nil: "copy_key k kwargs data = [] \<longleftrightarrow> data = [] \<and> map_of kwargs k = None"
  by (cases data) (auto simp: copy_key_def split: option.splits)

lemma copy_keys_map_of:
  "map_of (foldr (\<lambda>k. copy_key k kwargs) ks data) key =
     (if key \<in> set ks \<and> map_of kwargs key \<noteq> None then map_of kwargs key else map_of data key)"
  by (induction ks) (auto simp: copy_key_map_of)

lemma copy_keys_eq_Nil:
  "foldr (\<lambda>k. copy_key k kwargs) ks data = [] \<longleftrightarrow> data = [] \<and> (\<forall>k \<in> set ks. map_of kwargs k = None)"
  by (induction ks) (auto simp: copy_key_eq_Nil)

lemma turn_on_data_foldr:
  "turn_on_data kwargs =
     foldr (\<lambda>k. copy_key k kwargs)
       [ATTR_FLASH, ATTR_TRANSITION, ATTR_EFFECT, ATTR_WHITE_VALUE, ATTR_COLOR_TEMP, ATTR_HS_COLOR,
        ATTR_BRIGHTNESS] []"
  by (simp add: turn_on_data_def)

lemma turn_on_data_map_of:
  "map_of (turn_on_data kwargs) key =
     (if key \<in> {ATTR_BRIGHTNESS, ATTR_HS_COLOR, ATTR_COLOR_TEMP, ATTR_WHITE_VALUE, ATTR_EFFECT,
                ATTR_TRANSITION, ATTR_FLASH}
      then map_of kwargs key else None)"
proof -
  have "set [ATTR_FLASH, ATTR_TRANSITION, ATTR_EFFECT, ATTR_WHITE_VALUE, ATTR_COLOR_TEMP,
      ATTR_HS_COLOR, ATTR_BRIGHTNESS] = {ATTR_BRIGHTNESS, ATTR_HS_COLOR, ATTR_COLOR_TEMP,
      ATTR_WHITE_VALUE, ATTR_EFFECT, ATTR_TRANSITION, ATTR_FLASH}"
    by (simp only: set_simps) blast
  then show ?thesis
    unfolding turn_on_data_foldr copy_keys_map_of by (cases "map_of kwargs key") simp_all
qed

lemma turn_on_data_eq_Nil:
  "turn_on_data kwargs = [] \<longleftrightarrow>
     (\<forall>key \<in> {ATTR_BRIGHTNESS, ATTR_HS_COLOR, ATTR_COLOR_TEMP, ATTR_WHITE_VALUE, ATTR_EFFECT,
                ATTR_TRANSITION, ATTR_FLASH}. map_of kwargs key = None)"
proof -
  have "set [ATTR_FLASH, ATTR_TRANSITION, ATTR_EFFECT, ATTR_WHITE_VALUE, ATTR_COLOR_TEMP,
      ATTR_HS_COLOR, ATTR_BRIGHTNESS] = {ATTR_BRIGHTNESS, ATTR_HS_COLOR, ATTR_COLOR_TEMP,
      ATTR_WHITE_VALUE, ATTR_EFFECT, ATTR_TRANSITION, ATTR_FLASH}"
    by (simp only: set_simps) blast
  then show ?thesis
    unfolding turn_on_data_foldr copy_keys_eq_Nil by simp
qed

lemma map_filter_id_map:
  "List.map_filter id (map f xs) = List.map_filter f xs"
  by (induction xs) (simp_all add: List.map_filter_simps split: option.splits)

lemma get_states_and_on_states_eq:
  "get_states_and_on_states self hass =
     (List.map_filter (hass_states hass) (entity_ids self),
      filter (\<lambda>st. state st = STATE_ON) (List.map_filter (hass_states hass) (entity_ids self)))"
  by (simp add: get_states_and_on_states_def Let_def map_filter_id_map)

lemma get_turned_on_entities_eq:
  "get_turned_on_entities self hass =
     map entity_id (filter (\<lambda>st. state st = STATE_ON)
       (List.map_filter (hass_states hass) (entity_ids self)))"
  by (simp add: get_turned_on_entities_def get_states_and_on_states_eq)

lemma turned_on_consistent:
  assumes "\<forall>x s. hass_states hass x = Some s \<longrightarrow> entity_id s = x"
  shows "get_turned_on_entities self hass =
     filter (\<lambda>x. \<exists>s. hass_states hass x = Some s \<and> state s = STATE_ON) (entity_ids self)"
proof -
  have "map entity_id (filter (\<lambda>st. state st = STATE_ON) (List.map_filter (hass_states hass) xs))
      = filter (\<lambda>x. \<exists>s. hass_states hass x = Some s \<and> state s = STATE_ON) xs" for xs
    using assms by (induction xs) (auto simp: List.map_filter_simps split: option.splits)
  then show ?thesis
    by (simp add: get_turned_on_entities_eq)
qed

text \<open>
  Claim C4. For every payload, \<open>async_toggle\<close> is \<open>async_turn_off\<close> with the same payload
  exactly when the cached \<open>main_lights_on\<close> flag is true, and \<open>async_turn_on\<close> with the
  same payload otherwise. The verb of the call it issues is a function of that flag
  alone: neither the cached \<open>is_on\<close> flag nor the state of any member in \<open>hass\<close> (so of any
  auxiliary light) enters the decision.
\<close>

theorem async_toggle_delegates:
  "async_toggle self hass kwargs =
     (if main_lights_on self then async_turn_off self hass kwargs
      else async_turn_on self hass kwargs)
   \<and> service (last (service_calls (async_toggle self hass kwargs))) =
     (if main_lights_on self then SERVICE_TURN_OFF else SERVICE_TURN_ON)
   \<and> SERVICE_TURN_OFF \<noteq> SERVICE_TURN_ON"
  by (simp add: async_toggle_def async_turn_off_def async_turn_on_def async_call_def Let_def
      SERVICE_TURN_OFF_def SERVICE_TURN_ON_def)

text \<open>
  Claim C5. For every payload and whatever the members' states, \<open>async_turn_off\<close> issues
  one call of \<open>light.turn_off\<close> whose target is the main lights followed by the auxiliary
  lights, and whose data has no key besides \<open>entity_id\<close> and \<open>transition\<close>; the transition
  is the one of the payload, and absent when the payload has none.
\<close>

theorem async_turn_off_target:
  assumes "entity_ids self = main_lights self @ aux_lights self"
  shows "\<exists>data.
     async_turn_off self hass kwargs =
       hass\<lparr>service_calls := service_calls hass @
         [\<lparr>domain = DOMAIN, service = SERVICE_TURN_OFF, service_data = data, blocking = True\<rparr>]\<rparr>
     \<and> map_of data ATTR_ENTITY_ID = Some (PyList (main_lights self @ aux_lights self))
     \<and> map_of data ATTR_TRANSITION = map_of kwargs ATTR_TRANSITION
     \<and> fst ` set data \<subseteq> {ATTR_ENTITY_ID, ATTR_TRANSITION}"
proof -
  define data where "data = copy_key ATTR_TRANSITION kwargs [(ATTR_ENTITY_ID, PyList (entity_ids self))]"
  have call: "async_turn_off self hass kwargs =
       hass\<lparr>service_calls := service_calls hass @
         [\<lparr>domain = DOMAIN, service = SERVICE_TURN_OFF, service_data = data, blocking = True\<rparr>]\<rparr>"
    by (simp add: async_turn_off_def async_call_def Let_def data_def)
  have ne: "ATTR_ENTITY_ID \<noteq> ATTR_TRANSITION"
    by (simp add: ATTR_ENTITY_ID_def ATTR_TRANSITION_def)
  have tgt: "map_of data ATTR_ENTITY_ID = Some (PyList (main_lights self @ aux_lights self))"
    using ne assms by (simp add: data_def copy_key_map_of)
  have tr: "map_of data ATTR_TRANSITION = map_of kwargs ATTR_TRANSITION"
    using ne by (cases "map_of kwargs ATTR_TRANSITION") (simp_all add: data_def copy_key_map_of)
  have keys: "fst ` set data \<subseteq> {ATTR_ENTITY_ID, ATTR_TRANSITION}"
    using ne by (auto simp: data_def copy_key_def split: option.splits)
  from call tgt tr keys show ?thesis by blast
qed

lemma async_turn_on_call:
  assumes "entity_ids self = main_lights self @ aux_lights self"
    and "\<forall>x s. hass_states hass x = Some s \<longrightarrow> entity_id s = x"
  shows "\<exists>data.
     async_turn_on self hass kwargs =
       hass\<lparr>service_calls := service_calls hass @
         [\<lparr>domain = DOMAIN, service = SERVICE_TURN_ON, service_data = data, blocking = True\<rparr>]\<rparr>
     \<and> (\<forall>key. key \<noteq> ATTR_ENTITY_ID \<longrightarrow>
           map_of data key =
             (if key \<in> {ATTR_BRIGHTNESS, ATTR_HS_COLOR, ATTR_COLOR_TEMP, ATTR_WHITE_VALUE,
                        ATTR_EFFECT, ATTR_TRANSITION, ATTR_FLASH}
              then map_of kwargs key else None))
     \<and> map_of data ATTR_ENTITY_ID = Some (PyList
          (if \<not> is_on self \<or>
              (\<forall>key \<in> {ATTR_BRIGHTNESS, ATTR_HS_COLOR, ATTR_COLOR_TEMP, ATTR_WHITE_VALUE,
                        ATTR_EFFECT, ATTR_TRANSITION, ATTR_FLASH}. map_of kwargs key = None)
           then main_lights self
           else filter (\<lambda>x. \<exists>s. hass_states hass x = Some s \<and> state s = STATE_ON)
                  (main_lights self @ aux_lights self)))"
proof -
  define target where "target =
    (if \<not> is_on self \<or> turn_on_data kwargs = [] then main_lights self
     else get_turned_on_entities self hass)"
  define data where "data = AList.update ATTR_ENTITY_ID (PyList target) (turn_on_data kwargs)"
  have on: "get_turned_on_entities self hass =
      filter (\<lambda>x. \<exists>s. hass_states hass x = Some s \<and> state s = STATE_ON)
        (main_lights self @ aux_lights self)"
    using turned_on_consistent [OF assms(2), of self] assms(1) by simp
  have call: "async_turn_on self hass kwargs =
       hass\<lparr>service_calls := service_calls hass @
         [\<lparr>domain = DOMAIN, service = SERVICE_TURN_ON, service_data = data, blocking = True\<rparr>]\<rparr>"
    by (simp add: async_turn_on_def async_call_def Let_def data_def target_def)
  have other: "map_of data key = map_of (turn_on_data kwargs) key" if "key \<noteq> ATTR_ENTITY_ID" for key
    using that by (simp add: data_def update_conv')
  have tgt: "map_of data ATTR_ENTITY_ID = Some (PyList target)"
    by (simp add: data_def update_conv')
  have p1: "\<forall>key. key \<noteq> ATTR_ENTITY_ID \<longrightarrow>
           map_of data key =
             (if key \<in> {ATTR_BRIGHTNESS, ATTR_HS_COLOR, ATTR_COLOR_TEMP, ATTR_WHITE_VALUE,
                        ATTR_EFFECT, ATTR_TRANSITION, ATTR_FLASH}
              then map_of kwargs key else None)"
  proof (intro allI impI)
    fix key assume "key \<noteq> ATTR_ENTITY_ID"
    then have "map_of data key = map_of (turn_on_data kwargs) key" by (rule other)
    then show "map_of data key =
             (if key \<in> {ATTR_BRIGHTNESS, ATTR_HS_COLOR, ATTR_COLOR_TEMP, ATTR_WHITE_VALUE,
                        ATTR_EFFECT, ATTR_TRANSITION, ATTR_FLASH}
              then map_of kwargs key else None)"
      by (simp only: turn_on_data_map_of)
  qed
  have p2: "map_of data ATTR_ENTITY_ID = Some (PyList
          (if \<not> is_on self \<or>
              (\<forall>key \<in> {ATTR_BRIGHTNESS, ATTR_HS_COLOR, ATTR_COLOR_TEMP, ATTR_WHITE_VALUE,
                        ATTR_EFFECT, ATTR_TRANSITION, ATTR_FLASH}. map_of kwargs key = None)
           then main_lights self
           else filter (\<lambda>x. \<exists>s. hass_states hass x = Some s \<and> state s = STATE_ON)
                  (main_lights self @ aux_lights self)))"
    unfolding tgt target_def on turn_on_data_eq_Nil ..
  from call p1 p2 show ?thesis by blast
qed

text \<open>
  Claim C1. \<open>async_turn_on\<close> issues one call of \<open>light.turn_on\<close>. Its data carries, for
  each of the seven forwarded keys, exactly the value of the payload. When the cached
  \<open>is_on\<close> flag is false or the forwarded payload is empty, the target is the list of main
  lights; otherwise it is the members, main and auxiliary, whose state in \<open>hass\<close> at the
  time of the call is \<open>on\<close>. The state machine is assumed to return, for an entity id, a
  state that carries that id.
\<close>

theorem async_turn_on_target:
  assumes "entity_ids self = main_lights self @ aux_lights self"
    and "\<forall>x s. hass_states hass x = Some s \<longrightarrow> entity_id s = x"
  shows "\<exists>data.
     async_turn_on self hass kwargs =
       hass\<lparr>service_calls := service_calls hass @
         [\<lparr>domain = DOMAIN, service = SERVICE_TURN_ON, service_data = data, blocking = True\<rparr>]\<rparr>
     \<and> (\<forall>key. key \<noteq> ATTR_ENTITY_ID \<longrightarrow>
           map_of data key =
             (if key \<in> {ATTR_BRIGHTNESS, ATTR_HS_COLOR, ATTR_COLOR_TEMP, ATTR_WHITE_VALUE,
                        ATTR_EFFECT, ATTR_TRANSITION, ATTR_FLASH}
              then map_of kwargs key else None))
     \<and> map_of data ATTR_ENTITY_ID = Some (PyList
          (if \<not> is_on self \<or>
              (\<forall>key \<in> {ATTR_BRIGHTNESS, ATTR_HS_COLOR, ATTR_COLOR_TEMP, ATTR_WHITE_VALUE,
                        ATTR_EFFECT, ATTR_TRANSITION, ATTR_FLASH}. map_of kwargs key = None)
           then main_lights self
           else filter (\<lambda>x. \<exists>s. hass_states hass x = Some s \<and> state s = STATE_ON)
                  (main_lights self @ aux_lights self)))"
  using assms by (rule async_turn_on_call)

text \<open>
  Claim C2, as amended. When the cached \<open>main_lights_on\<close> flag is false, \<open>async_toggle\<close>
  issues one call of \<open>light.turn_on\<close>. Its target is the list of main lights when the
  cached \<open>is_on\<close> flag is false or the forwarded payload is empty. When \<open>is_on\<close> is true and
  the forwarded payload is not empty, the target is the members whose state is \<open>on\<close>.
\<close>

theorem async_toggle_primary_off:
  assumes "\<not> main_lights_on self"
    and "entity_ids self = main_lights self @ aux_lights self"
    and "\<forall>x s. hass_states hass x = Some s \<longrightarrow> entity_id s = x"
  shows "\<exists>data.
     async_toggle self hass kwargs =
       hass\<lparr>service_calls := service_calls hass @
         [\<lparr>domain = DOMAIN, service = SERVICE_TURN_ON, service_data = data, blocking = True\<rparr>]\<rparr>
     \<and> (\<not> is_on self \<or>
          (\<forall>key \<in> {ATTR_BRIGHTNESS, ATTR_HS_COLOR, ATTR_COLOR_TEMP, ATTR_WHITE_VALUE,
                    ATTR_EFFECT, ATTR_TRANSITION, ATTR_FLASH}. map_of kwargs key = None) \<longrightarrow>
          map_of data ATTR_ENTITY_ID = Some (PyList (main_lights self)))
     \<and> (is_on self \<and>
          \<not> (\<forall>key \<in> {ATTR_BRIGHTNESS, ATTR_HS_COLOR, ATTR_COLOR_TEMP, ATTR_WHITE_VALUE,
                    ATTR_EFFECT, ATTR_TRANSITION, ATTR_FLASH}. map_of kwargs key = None) \<longrightarrow>
          map_of data ATTR_ENTITY_ID = Some (PyList
            (filter (\<lambda>x. \<exists>s. hass_states hass x = Some s \<and> state s = STATE_ON)
               (main_lights self @ aux_lights self))))"
proof -
  from async_turn_on_call [OF assms(2,3), of kwargs] obtain data where
    call: "async_turn_on self hass kwargs =
       hass\<lparr>service_calls := service_calls hass @
         [\<lparr>domain = DOMAIN, service = SERVICE_TURN_ON, service_data = data, blocking = True\<rparr>]\<rparr>"
    and tgt: "map_of data ATTR_ENTITY_ID = Some (PyList
          (if \<not> is_on self \<or>
              (\<forall>key \<in> {ATTR_BRIGHTNESS, ATTR_HS_COLOR, ATTR_COLOR_TEMP, ATTR_WHITE_VALUE,
                        ATTR_EFFECT, ATTR_TRANSITION, ATTR_FLASH}. map_of kwargs key = None)
           then main_lights self
           else filter (\<lambda>x. \<exists>s. hass_states hass x = Some s \<and> state s = STATE_ON)
                  (main_lights self @ aux_lights self)))"
    by blast
  from assms(1) have "async_toggle self hass kwargs = async_turn_on self hass kwargs"
    by (simp add: async_toggle_def)
  with call have c: "async_toggle self hass kwargs =
       hass\<lparr>service_calls := service_calls hass @
         [\<lparr>domain = DOMAIN, service = SERVICE_TURN_ON, service_data = data, blocking = True\<rparr>]\<rparr>"
    by simp
  have p: "map_of data ATTR_ENTITY_ID = Some (PyList (main_lights self))"
    if "\<not> is_on self \<or>
          (\<forall>key \<in> {ATTR_BRIGHTNESS, ATTR_HS_COLOR, ATTR_COLOR_TEMP, ATTR_WHITE_VALUE,
                    ATTR_EFFECT, ATTR_TRANSITION, ATTR_FLASH}. map_of kwargs key = None)"
    using tgt unfolding if_P [OF that] .
  have q: "map_of data ATTR_ENTITY_ID = Some (PyList
            (filter (\<lambda>x. \<exists>s. hass_states hass x = Some s \<and> state s = STATE_ON)
               (main_lights self @ aux_lights self)))"
    if "is_on self \<and>
          \<not> (\<forall>key \<in> {ATTR_BRIGHTNESS, ATTR_HS_COLOR, ATTR_COLOR_TEMP, ATTR_WHITE_VALUE,
                    ATTR_EFFECT, ATTR_TRANSITION, ATTR_FLASH}. map_of kwargs key = None)"
  proof -
    from that have "\<not> (\<not> is_on self \<or>
          (\<forall>key \<in> {ATTR_BRIGHTNESS, ATTR_HS_COLOR, ATTR_COLOR_TEMP, ATTR_WHITE_VALUE,
                    ATTR_EFFECT, ATTR_TRANSITION, ATTR_FLASH}. map_of kwargs key = None))"
      by blast
    then have "(if \<not> is_on self \<or>
              (\<forall>key \<in> {ATTR_BRIGHTNESS, ATTR_HS_COLOR, ATTR_COLOR_TEMP, ATTR_WHITE_VALUE,
                        ATTR_EFFECT, ATTR_TRANSITION, ATTR_FLASH}. map_of kwargs key = None)
           then main_lights self
           else filter (\<lambda>x. \<exists>s. hass_states hass x = Some s \<and> state s = STATE_ON)
                  (main_lights self @ aux_lights self)) =
        filter (\<lambda>x. \<exists>s. hass_states hass x = Some s \<and> state s = STATE_ON)
                  (main_lights self @ aux_lights self)"
      by (rule if_not_P)
    with tgt show ?thesis by (simp only:)
  qed
  show ?thesis
    by (rule exI [of _ data], intro conjI impI, rule c, erule p, erule q)
qed


subsection \<open>The result of an update\<close>

lemma async_update_Inr:
  assumes "async_update lc self hass = Inr self'"
  shows "\<exists>b hs w ct mn mx el ef sf.
      reduce_attribute (snd (get_states_and_on_states self hass)) ATTR_BRIGHTNESS PyNone mean_int = Inr b
    \<and> reduce_attribute (snd (get_states_and_on_states self hass)) ATTR_HS_COLOR PyNone mean_tuple = Inr hs
    \<and> reduce_attribute (snd (get_states_and_on_states self hass)) ATTR_WHITE_VALUE PyNone mean_int = Inr w
    \<and> reduce_attribute (snd (get_states_and_on_states self hass)) ATTR_COLOR_TEMP PyNone mean_int = Inr ct
    \<and> reduce_attribute (fst (get_states_and_on_states self hass)) ATTR_MIN_MIREDS (PyNum (PyInt 154)) py_min = Inr mn
    \<and> reduce_attribute (fst (get_states_and_on_states self hass)) ATTR_MAX_MIREDS (PyNum (PyInt 500)) py_max = Inr mx
    \<and> (if find_state_attributes (fst (get_states_and_on_states self hass)) ATTR_EFFECT_LIST \<noteq> []
        then ebind (set_union (find_state_attributes (fst (get_states_and_on_states self hass)) ATTR_EFFECT_LIST))
               (\<lambda>u. Inr (Some u))
        else Inr None) = Inr el
    \<and> (if find_state_attributes (snd (get_states_and_on_states self hass)) ATTR_EFFECT \<noteq> []
        then ebind (Counter (find_state_attributes (snd (get_states_and_on_states self hass)) ATTR_EFFECT))
               (\<lambda>effects_count. case most_common1 effects_count of
                         [] \<Rightarrow> Inl IndexError
                       | (k, c) # others \<Rightarrow> Inr k)
        else Inr PyNone) = Inr ef
    \<and> merge_supported_features 0
        (find_state_attributes (fst (get_states_and_on_states self hass)) ATTR_SUPPORTED_FEATURES) = Inr sf
    \<and> self' = self\<lparr>is_on := 0 < length (snd (get_states_and_on_states self hass)),
                main_lights_on := list_ex (\<lambda>main_light. main_light \<in> set (get_turned_on_entities self hass)) (main_lights self),
                available := list_ex (\<lambda>st. state st \<noteq> STATE_UNAVAILABLE) (fst (get_states_and_on_states self hass)),
                brightness := b,
                hs_color := hs,
                white_value := w,
                color_temp := ct,
                min_mireds := mn,
                max_mireds := mx,
                effect_list := el,
                effect := ef,
                supported_features := sf AND SUPPORT_GROUP_LIGHT lc\<rparr>"
  using assms
  unfolding async_update_def Let_def split_beta ebind_eq_Inr
  by (elim exE conjE) (simp only: sum.inject, blast)


subsection \<open>Supported features\<close>

lemma merge_supported_features_Inr:
  "merge_supported_features acc vs = Inr r \<Longrightarrow>
     \<exists>masks. vs = map (\<lambda>m. PyNum (PyInt m)) masks \<and> r = fold (\<lambda>m a. a OR m) masks acc"
proof (induction acc vs rule: merge_supported_features.induct)
  case (1 acc)
  then show ?case by simp
next
  case (2 acc support rest)
  then obtain masks where "rest = map (\<lambda>m. PyNum (PyInt m)) masks"
      and "r = fold (\<lambda>m a. a OR m) masks (acc OR support)"
    by auto
  then have "PyNum (PyInt support) # rest = map (\<lambda>m. PyNum (PyInt m)) (support # masks)
      \<and> r = fold (\<lambda>m a. a OR m) (support # masks) acc"
    by simp
  then show ?case by (rule exI [of _ "support # masks"])
qed simp_all

lemma and_mask_subset:
  fixes a m :: int
  shows "(a AND m) AND m = a AND m" and "(a AND m) AND NOT m = 0"
  by (simp_all add: bit_eq_iff bit_and_iff bit_not_iff)

text \<open>
  Claim C3. After every update that returns, the reported \<open>supported_features\<close> values
  are integers, and the group's \<open>supported_features\<close> is the bitwise OR of all of them,
  bitwise-ANDed with \<open>SUPPORT_GROUP_LIGHT\<close>; it has no bit outside that mask, whatever
  bits the members report.
\<close>

theorem supported_features_masked:
  assumes "async_update lc self hass = Inr self'"
  shows "\<exists>masks.
      find_state_attributes (fst (get_states_and_on_states self hass)) ATTR_SUPPORTED_FEATURES =
        map (\<lambda>m. PyNum (PyInt m)) masks
    \<and> supported_features self' = fold (\<lambda>m a. a OR m) masks 0 AND SUPPORT_GROUP_LIGHT lc
    \<and> supported_features self' AND SUPPORT_GROUP_LIGHT lc = supported_features self'
    \<and> supported_features self' AND NOT (SUPPORT_GROUP_LIGHT lc) = 0"
proof -
  from async_update_Inr [OF assms] obtain sf upd where
      sf: "merge_supported_features 0
        (find_state_attributes (fst (get_states_and_on_states self hass)) ATTR_SUPPORTED_FEATURES) = Inr sf"
    and self': "supported_features self' = sf AND SUPPORT_GROUP_LIGHT lc"
    by (elim exE conjE) simp
  from merge_supported_features_Inr [OF sf] obtain masks where
    "find_state_attributes (fst (get_states_and_on_states self hass)) ATTR_SUPPORTED_FEATURES =
        map (\<lambda>m. PyNum (PyInt m)) masks" and "sf = fold (\<lambda>m a. a OR m) masks 0"
    by blast
  with self' and_mask_subset [of sf "SUPPORT_GROUP_LIGHT lc"] show ?thesis
    by auto
qed


subsection \<open>The commands on an example\<close>

lemmas consts_defs = STATE_ON_def STATE_UNAVAILABLE_def ATTR_ENTITY_ID_def ATTR_SUPPORTED_FEATURES_def
  ATTR_BRIGHTNESS_def ATTR_HS_COLOR_def ATTR_WHITE_VALUE_def ATTR_COLOR_TEMP_def ATTR_MIN_MIREDS_def
  ATTR_MAX_MIREDS_def ATTR_EFFECT_LIST_def ATTR_EFFECT_def ATTR_FLASH_def ATTR_TRANSITION_def
  DOMAIN_def SERVICE_TURN_ON_def SERVICE_TURN_OFF_def

lemma demo_update: "async_update ha_light_consts demo_group demo_hass = Inr demo_group_updated"
  by code_simp


lemma demo_consistent: "\<forall>x s. hass_states demo_hass x = Some s \<longrightarrow> entity_id s = x"
  by (auto simp: demo_hass_def split: if_splits)

lemma demo_entity_ids:
  "entity_ids demo_group_updated = main_lights demo_group_updated @ aux_lights demo_group_updated"
  by (simp add: demo_group_updated_def demo_group_def init_def)

theorem async_turn_on_target_witness:
  "\<exists>data.
     async_turn_on demo_group_updated demo_hass [(ATTR_BRIGHTNESS, PyNum (PyInt 10))] =
       demo_hass\<lparr>service_calls := service_calls demo_hass @
         [\<lparr>domain = DOMAIN, service = SERVICE_TURN_ON, service_data = data, blocking = True\<rparr>]\<rparr>
     \<and> map_of data ATTR_BRIGHTNESS = Some (PyNum (PyInt 10))
     \<and> map_of data ATTR_ENTITY_ID = Some (PyList [''light.b''])"
proof -
  from async_turn_on_target [OF demo_entity_ids demo_consistent,
      of "[(ATTR_BRIGHTNESS, PyNum (PyInt 10))]"]
  obtain data where
    call: "async_turn_on demo_group_updated demo_hass [(ATTR_BRIGHTNESS, PyNum (PyInt 10))] =
       demo_hass\<lparr>service_calls := service_calls demo_hass @
         [\<lparr>domain = DOMAIN, service = SERVICE_TURN_ON, service_data = data, blocking = True\<rparr>]\<rparr>"
    and pay: "\<forall>key. key \<noteq> ATTR_ENTITY_ID \<longrightarrow>
           map_of data key =
             (if key \<in> {ATTR_BRIGHTNESS, ATTR_HS_COLOR, ATTR_COLOR_TEMP, ATTR_WHITE_VALUE,
                        ATTR_EFFECT, ATTR_TRANSITION, ATTR_FLASH}
              then map_of [(ATTR_BRIGHTNESS, PyNum (PyInt 10))] key else None)"
    and tgt: "map_of data ATTR_ENTITY_ID = Some (PyList
          (if \<not> is_on demo_group_updated \<or>
              (\<forall>key \<in> {ATTR_BRIGHTNESS, ATTR_HS_COLOR, ATTR_COLOR_TEMP, ATTR_WHITE_VALUE,
                        ATTR_EFFECT, ATTR_TRANSITION, ATTR_FLASH}.
                  map_of [(ATTR_BRIGHTNESS, PyNum (PyInt 10))] key = None)
           then main_lights demo_group_updated
           else filter (\<lambda>x. \<exists>s. hass_states demo_hass x = Some s \<and> state s = STATE_ON)
                  (main_lights demo_group_updated @ aux_lights demo_group_updated)))"
    by blast
  have "ATTR_BRIGHTNESS \<noteq> ATTR_ENTITY_ID"
    by (simp add: consts_defs)
  with pay have b: "map_of data ATTR_BRIGHTNESS = Some (PyNum (PyInt 10))"
    by simp
  from tgt have t: "map_of data ATTR_ENTITY_ID = Some (PyList [''light.b''])"
    by (simp add: demo_group_updated_def demo_group_def init_def demo_hass_def STATE_ON_def)
  from call b t show ?thesis by blast
qed

theorem async_turn_off_target_witness:
  "\<exists>data.
     async_turn_off demo_group_updated demo_hass [(ATTR_BRIGHTNESS, PyNum (PyInt 10)), (ATTR_TRANSITION, PyNum (PyInt 2))] =
       demo_hass\<lparr>service_calls := service_calls demo_hass @
         [\<lparr>domain = DOMAIN, service = SERVICE_TURN_OFF, service_data = data, blocking = True\<rparr>]\<rparr>
     \<and> map_of data ATTR_ENTITY_ID = Some (PyList [''light.a'', ''light.b''])
     \<and> map_of data ATTR_TRANSITION = Some (PyNum (PyInt 2))
     \<and> map_of data ATTR_BRIGHTNESS = None"
proof -
  from async_turn_off_target [OF demo_entity_ids,
      of demo_hass "[(ATTR_BRIGHTNESS, PyNum (PyInt 10)), (ATTR_TRANSITION, PyNum (PyInt 2))]"]
  obtain data where
    call: "async_turn_off demo_group_updated demo_hass [(ATTR_BRIGHTNESS, PyNum (PyInt 10)), (ATTR_TRANSITION, PyNum (PyInt 2))] =
       demo_hass\<lparr>service_calls := service_calls demo_hass @
         [\<lparr>domain = DOMAIN, service = SERVICE_TURN_OFF, service_data = data, blocking = True\<rparr>]\<rparr>"
    and tgt: "map_of data ATTR_ENTITY_ID = Some (PyList (main_lights demo_group_updated @ aux_lights demo_group_updated))"
    and tr: "map_of data ATTR_TRANSITION = map_of [(ATTR_BRIGHTNESS, PyNum (PyInt 10)), (ATTR_TRANSITION, PyNum (PyInt 2))] ATTR_TRANSITION"
    and keys: "fst ` set data \<subseteq> {ATTR_ENTITY_ID, ATTR_TRANSITION}"
    by blast
  from tgt have t: "map_of data ATTR_ENTITY_ID = Some (PyList [''light.a'', ''light.b''])"
    by (simp add: demo_group_updated_def demo_group_def init_def)
  from tr have r: "map_of data ATTR_TRANSITION = Some (PyNum (PyInt 2))"
    by (simp add: consts_defs)
  have "ATTR_BRIGHTNESS \<notin> {ATTR_ENTITY_ID, ATTR_TRANSITION}"
    by (simp add: consts_defs)
  with keys have "ATTR_BRIGHTNESS \<notin> fst ` set data" by blast
  then have n: "map_of data ATTR_BRIGHTNESS = None"
    by (simp add: map_of_eq_None_iff)
  from call t r n show ?thesis by blast
qed

theorem async_toggle_delegates_witness:
  "async_toggle demo_group_updated demo_hass [] = async_turn_on demo_group_updated demo_hass []
   \<and> service (last (service_calls (async_toggle demo_group_updated demo_hass []))) = ''turn_on''
   \<and> async_toggle (demo_group_updated\<lparr>main_lights_on := True\<rparr>) demo_hass [] =
       async_turn_off (demo_group_updated\<lparr>main_lights_on := True\<rparr>) demo_hass []"
proof -
  have off: "\<not> main_lights_on demo_group_updated"
    by (simp add: demo_group_updated_def)
  note t = async_toggle_delegates [of demo_group_updated demo_hass "[]", unfolded if_not_P [OF off]]
  have a: "async_toggle demo_group_updated demo_hass [] =
      async_turn_on demo_group_updated demo_hass []"
    using t by (rule conjunct1)
  have b: "service (last (service_calls (async_toggle demo_group_updated demo_hass []))) =
      ''turn_on''"
    using t unfolding SERVICE_TURN_ON_def by blast
  have on: "main_lights_on (demo_group_updated\<lparr>main_lights_on := True\<rparr>)"
    by simp
  have c: "async_toggle (demo_group_updated\<lparr>main_lights_on := True\<rparr>) demo_hass [] =
       async_turn_off (demo_group_updated\<lparr>main_lights_on := True\<rparr>) demo_hass []"
    using async_toggle_delegates [of "demo_group_updated\<lparr>main_lights_on := True\<rparr>" demo_hass "[]",
        unfolded if_P [OF on]]
    by (rule conjunct1)
  from a b c show ?thesis by blast
qed

theorem supported_features_masked_witness:
  "async_update ha_light_consts demo_group demo_hass = Inr demo_group_updated
   \<and> supported_features demo_group_updated = (65 OR 258) AND 191
   \<and> supported_features demo_group_updated AND NOT (SUPPORT_GROUP_LIGHT ha_light_consts) = 0"
proof -
  have mask: "SUPPORT_GROUP_LIGHT ha_light_consts = 191"
    by (simp add: SUPPORT_GROUP_LIGHT_def ha_light_consts_def)
  have attrs: "find_state_attributes (fst (get_states_and_on_states demo_group demo_hass))
      ATTR_SUPPORTED_FEATURES = map (\<lambda>m. PyNum (PyInt m)) [65, 258]"
    by (simp add: get_states_and_on_states_eq List.map_filter_simps demo_group_def demo_hass_def
        init_def find_state_attributes_def dict_get_def consts_defs)
  from supported_features_masked [OF demo_update] obtain masks where
    m: "find_state_attributes (fst (get_states_and_on_states demo_group demo_hass))
      ATTR_SUPPORTED_FEATURES = map (\<lambda>m. PyNum (PyInt m)) masks"
    and v: "supported_features demo_group_updated =
       fold (\<lambda>m a. a OR m) masks 0 AND SUPPORT_GROUP_LIGHT ha_light_consts"
    and z: "supported_features demo_group_updated AND NOT (SUPPORT_GROUP_LIGHT ha_light_consts) = 0"
    by blast
  from m attrs have "map (\<lambda>m. PyNum (PyInt m)) masks = map (\<lambda>m. PyNum (PyInt m)) [65, 258]"
    by simp
  then have "masks = [65, 258]"
    by (simp add: inj_on_def map_eq_Cons_conv) 
  with v mask have "supported_features demo_group_updated = (65 OR 258) AND 191"
    by simp
  with demo_update z show ?thesis by simp
qed

text \<open>
  With the main light off, the auxiliary light on and a brightness in the payload,
  \<open>async_toggle\<close> sends \<open>turn_on\<close> to the auxiliary light alone: the main light is not
  among the targets.
\<close>

theorem toggle_counterexample:
  "async_update ha_light_consts demo_group demo_hass = Inr demo_group_updated
   \<and> main_lights_on demo_group_updated = False
   \<and> main_lights demo_group_updated = [''light.a'']
   \<and> service_calls (async_toggle demo_group_updated demo_hass [(''brightness'', PyNum (PyInt 10))]) =
       [\<lparr>domain = ''light'', service = ''turn_on'',
         service_data = [(''brightness'', PyNum (PyInt 10)), (''entity_id'', PyList [''light.b''])],
         blocking = True\<rparr>]
   \<and> ''light.a'' \<notin> set [''light.b'']"
proof -
  have "service_calls (async_toggle demo_group_updated demo_hass [(''brightness'', PyNum (PyInt 10))]) =
       [\<lparr>domain = ''light'', service = ''turn_on'',
         service_data = [(''brightness'', PyNum (PyInt 10)), (''entity_id'', PyList [''light.b''])],
         blocking = True\<rparr>]"
    by code_simp
  with demo_update show ?thesis
    by (simp add: demo_group_updated_def demo_group_def init_def)
qed

lemma forwarded_brightness:
  "\<not> (\<forall>key \<in> {ATTR_BRIGHTNESS, ATTR_HS_COLOR, ATTR_COLOR_TEMP, ATTR_WHITE_VALUE,
                    ATTR_EFFECT, ATTR_TRANSITION, ATTR_FLASH}.
        map_of [(ATTR_BRIGHTNESS, PyNum (PyInt 10))] key = None)"
  by simp

theorem async_toggle_primary_off_witness:
  "(\<exists>data.
     async_toggle demo_group_updated demo_hass [] =
       demo_hass\<lparr>service_calls := service_calls demo_hass @
         [\<lparr>domain = DOMAIN, service = SERVICE_TURN_ON, service_data = data, blocking = True\<rparr>]\<rparr>
     \<and> map_of data ATTR_ENTITY_ID = Some (PyList [''light.a'']))
   \<and> (\<exists>data.
     async_toggle demo_group_updated demo_hass [(ATTR_BRIGHTNESS, PyNum (PyInt 10))] =
       demo_hass\<lparr>service_calls := service_calls demo_hass @
         [\<lparr>domain = DOMAIN, service = SERVICE_TURN_ON, service_data = data, blocking = True\<rparr>]\<rparr>
     \<and> map_of data ATTR_ENTITY_ID = Some (PyList [''light.b'']))"
proof -
  have off: "\<not> main_lights_on demo_group_updated"
    by (simp add: demo_group_updated_def)
  have on: "is_on demo_group_updated"
    by (simp add: demo_group_updated_def)
  have main: "main_lights demo_group_updated = [''light.a'']"
    by (simp add: demo_group_updated_def demo_group_def init_def)
  have lit: "filter (\<lambda>x. \<exists>s. hass_states demo_hass x = Some s \<and> state s = STATE_ON)
      (main_lights demo_group_updated @ aux_lights demo_group_updated) = [''light.b'']"
    by (simp add: demo_group_updated_def demo_group_def init_def demo_hass_def STATE_ON_def)
  from async_toggle_primary_off [OF off demo_entity_ids demo_consistent, of "[]"]
  obtain data where H: "async_toggle demo_group_updated demo_hass [] =
       demo_hass\<lparr>service_calls := service_calls demo_hass @
         [\<lparr>domain = DOMAIN, service = SERVICE_TURN_ON, service_data = data, blocking = True\<rparr>]\<rparr>
     \<and> (\<not> is_on demo_group_updated \<or>
          (\<forall>key \<in> {ATTR_BRIGHTNESS, ATTR_HS_COLOR, ATTR_COLOR_TEMP, ATTR_WHITE_VALUE,
                    ATTR_EFFECT, ATTR_TRANSITION, ATTR_FLASH}. map_of ([] :: pydict) key = None) \<longrightarrow>
          map_of data ATTR_ENTITY_ID = Some (PyList (main_lights demo_group_updated)))
     \<and> (is_on demo_group_updated \<and>
          \<not> (\<forall>key \<in> {ATTR_BRIGHTNESS, ATTR_HS_COLOR, ATTR_COLOR_TEMP, ATTR_WHITE_VALUE,
                    ATTR_EFFECT, ATTR_TRANSITION, ATTR_FLASH}. map_of ([] :: pydict) key = None) \<longrightarrow>
          map_of data ATTR_ENTITY_ID = Some (PyList
            (filter (\<lambda>x. \<exists>s. hass_states demo_hass x = Some s \<and> state s = STATE_ON)
               (main_lights demo_group_updated @ aux_lights demo_group_updated))))" ..
  note c = H [THEN conjunct1] and p = H [THEN conjunct2, THEN conjunct1]
  from p have "map_of data ATTR_ENTITY_ID = Some (PyList [''light.a''])"
    by (simp add: main)
  with c have a: "\<exists>data.
     async_toggle demo_group_updated demo_hass [] =
       demo_hass\<lparr>service_calls := service_calls demo_hass @
         [\<lparr>domain = DOMAIN, service = SERVICE_TURN_ON, service_data = data, blocking = True\<rparr>]\<rparr>
     \<and> map_of data ATTR_ENTITY_ID = Some (PyList [''light.a''])"
    by (intro exI [of _ data] conjI)
  from async_toggle_primary_off [OF off demo_entity_ids demo_consistent,
      of "[(ATTR_BRIGHTNESS, PyNum (PyInt 10))]"]
  obtain data' where H': "async_toggle demo_group_updated demo_hass [(ATTR_BRIGHTNESS, PyNum (PyInt 10))] =
       demo_hass\<lparr>service_calls := service_calls demo_hass @
         [\<lparr>domain = DOMAIN, service = SERVICE_TURN_ON, service_data = data', blocking = True\<rparr>]\<rparr>
     \<and> (\<not> is_on demo_group_updated \<or>
          (\<forall>key \<in> {ATTR_BRIGHTNESS, ATTR_HS_COLOR, ATTR_COLOR_TEMP, ATTR_WHITE_VALUE,
                    ATTR_EFFECT, ATTR_TRANSITION, ATTR_FLASH}.
              map_of [(ATTR_BRIGHTNESS, PyNum (PyInt 10))] key = None) \<longrightarrow>
          map_of data' ATTR_ENTITY_ID = Some (PyList (main_lights demo_group_updated)))
     \<and> (is_on demo_group_updated \<and>
          \<not> (\<forall>key \<in> {ATTR_BRIGHTNESS, ATTR_HS_COLOR, ATTR_COLOR_TEMP, ATTR_WHITE_VALUE,
                    ATTR_EFFECT, ATTR_TRANSITION, ATTR_FLASH}.
              map_of [(ATTR_BRIGHTNESS, PyNum (PyInt 10))] key = None) \<longrightarrow>
          map_of data' ATTR_ENTITY_ID = Some (PyList
            (filter (\<lambda>x. \<exists>s. hass_states demo_hass x = Some s \<and> state s = STATE_ON)
               (main_lights demo_group_updated @ aux_lights demo_group_updated))))" ..
  note c' = H' [THEN conjunct1] and q = H' [THEN conjunct2, THEN conjunct2, THEN mp]
  have "map_of data' ATTR_ENTITY_ID = Some (PyList [''light.b''])"
    using q [OF conjI [OF on forwarded_brightness]] unfolding lit .
  with c' have b: "\<exists>data.
     async_toggle demo_group_updated demo_hass [(ATTR_BRIGHTNESS, PyNum (PyInt 10))] =
       demo_hass\<lparr>service_calls := service_calls demo_hass @
         [\<lparr>domain = DOMAIN, service = SERVICE_TURN_ON, service_data = data, blocking = True\<rparr>]\<rparr>
     \<and> map_of data ATTR_ENTITY_ID = Some (PyList [''light.b''])"
    by (intro exI [of _ data'] conjI)
  from a b show ?thesis by (rule conjI)
qed


subsection \<open>The reducers on numbers\<close>

lemma trunc_rat_of_int_div:
  "trunc_rat (of_int a / of_nat n) = sgn a * (\<bar>a\<bar> div int n)"
proof (cases "a < 0")
  case False
  then have "\<not> (of_int a / of_nat n :: rat) < 0"
    by (simp add: not_less zero_le_divide_iff)
  moreover have "\<lfloor>(of_int a :: rat) / of_int (int n)\<rfloor> = a div int n"
    by (rule floor_divide_of_int_eq)
  ultimately show ?thesis using False
    by (cases "a = 0") (simp_all add: trunc_rat_def)
next
  case True
  show ?thesis
  proof (cases "n = 0")
    case True
    then show ?thesis by (simp add: trunc_rat_def)
  next
    case False
    with True have neg: "(of_int a / of_nat n :: rat) < 0"
      by (simp add: divide_neg_pos)
    have "\<lceil>(of_int a :: rat) / of_nat n\<rceil> = - \<lfloor>(of_int (- a) :: rat) / of_int (int n)\<rfloor>"
      by (simp add: ceiling_def)
    also have "\<dots> = - ((- a) div int n)"
      by (simp only: floor_divide_of_int_eq)
    finally show ?thesis using True neg
      by (simp add: trunc_rat_def)
  qed
qed

lemma py_sum_from_ints:
  "py_sum_from (PyInt a) (map (\<lambda>i. PyNum (PyInt i)) xs) = Inr (PyInt (a + sum_list xs))"
  by (induction xs arbitrary: a) (simp_all add: add.assoc)

lemma py_sum_from_nums:
  "\<exists>r. py_sum_from acc (map PyNum ns) = Inr r \<and> num_val r = num_val acc + sum_list (map num_val ns)"
proof (induction ns arbitrary: acc)
  case Nil
  then show ?case by simp
next
  case (Cons n ns)
  have "num_val (num_add acc n) = num_val acc + num_val n"
    by (cases acc; cases n) simp_all
  with Cons [of "num_add acc n"] show ?case
    by (auto simp: add.assoc)
qed

lemma mean_int_ints:
  assumes "xs \<noteq> []"
  shows "mean_int (map (\<lambda>i. PyNum (PyInt i)) xs) =
     Inr (PyNum (PyInt (sgn (sum_list xs) * (\<bar>sum_list xs\<bar> div int (length xs)))))"
  using assms
  by (simp add: mean_int_def py_sum_def py_sum_from_ints true_div_def trunc_rat_of_int_div)

lemma mean_int_nums:
  assumes "ns \<noteq> []"
  shows "mean_int (map PyNum ns) =
     Inr (PyNum (PyInt (trunc_rat (sum_list (map num_val ns) / of_nat (length ns)))))"
proof -
  from py_sum_from_nums [of "PyInt 0" ns] obtain r where
    "py_sum (map PyNum ns) = Inr r" and "num_val r = sum_list (map num_val ns)"
    by (auto simp: py_sum_def)
  with assms show ?thesis
    by (simp add: mean_int_def true_div_def)
qed

lemma reduce_attribute_Nil:
  "find_state_attributes states key = [] \<Longrightarrow> reduce_attribute states key d reduce = Inr d"
  by (simp add: reduce_attribute_def)

lemma reduce_attribute_single:
  "find_state_attributes states key = [v] \<Longrightarrow> reduce_attribute states key d reduce = Inr v"
  by (simp add: reduce_attribute_def)

lemma reduce_attribute_many:
  "2 \<le> length (find_state_attributes states key) \<Longrightarrow>
     reduce_attribute states key d reduce = reduce (find_state_attributes states key)"
  by (auto simp: reduce_attribute_def Let_def)

lemma sequence_err_map_Inr: "sequence_err (map (\<lambda>x. Inr (f x)) xs) = Inr (map f xs)"
  by (induction xs) simp_all

lemma fold_min_const: "\<forall>n \<in> set ns. n = a \<Longrightarrow> fold min ns (a::nat) = a"
  by (induction ns) simp_all

lemma zip_star_pairs:
  assumes "ps \<noteq> []"
  shows "zip_star (map (\<lambda>p. [f p, g p]) ps) = [map f ps, map g ps]"
proof -
  from assms obtain p rest where ps: "ps = p # rest" by (cases ps) auto
  have "fold min (map length (map (\<lambda>p. [f p, g p]) rest)) (length [f p, g p]) = 2"
    using fold_min_const [of "map length (map (\<lambda>p. [f p, g p]) rest)" 2]
    by (simp add: numeral_2_eq_2)
  moreover have "[0..<2] = [0, Suc 0]"
    by (simp add: upt_rec)
  ultimately show ?thesis
    by (simp add: zip_star_def ps)
qed

lemma column_mean:
  assumes "ns \<noteq> []"
  shows "ebind (py_sum (map PyNum ns)) (\<lambda>s. true_div s (length (map PyNum ns))) =
     Inr (PyFloat (sum_list (map num_val ns) / of_nat (length ns)))"
proof -
  from py_sum_from_nums [of "PyInt 0" ns] obtain r where
    "py_sum (map PyNum ns) = Inr r" and "num_val r = sum_list (map num_val ns)"
    by (auto simp: py_sum_def)
  with assms show ?thesis
    by (simp add: true_div_def)
qed

lemma mean_tuple_pairs:
  assumes "ps \<noteq> []"
  shows "mean_tuple (map (\<lambda>(h, s). PyTuple [h, s]) ps) =
     Inr (PyTuple [PyFloat (sum_list (map (num_val \<circ> fst) ps) / of_nat (length ps)),
                   PyFloat (sum_list (map (num_val \<circ> snd) ps) / of_nat (length ps))])"
proof -
  have it: "map py_iter (map (\<lambda>(h, s). PyTuple [h, s]) ps) =
      map (\<lambda>p. Inr [PyNum (fst p), PyNum (snd p)]) ps"
    by (simp add: case_prod_beta)
  have c1: "ebind (py_sum (map PyNum (map fst ps))) (\<lambda>s. true_div s (length (map PyNum (map fst ps)))) =
     Inr (PyFloat (sum_list (map num_val (map fst ps)) / of_nat (length (map fst ps))))"
    using assms by (intro column_mean) simp
  have c2: "ebind (py_sum (map PyNum (map snd ps))) (\<lambda>s. true_div s (length (map PyNum (map snd ps)))) =
     Inr (PyFloat (sum_list (map num_val (map snd ps)) / of_nat (length (map snd ps))))"
    using assms by (intro column_mean) simp
  show ?thesis
    unfolding mean_tuple_def it sequence_err_map_Inr ebind_Inr
      zip_star_pairs [OF assms, of "\<lambda>p. PyNum (fst p)" "\<lambda>p. PyNum (snd p)"]
    using c1 c2 by (simp add: comp_def)
qed

lemma min_items_nums:
  "\<exists>m \<in> set (b # ns). min_items (PyNum b) (map PyNum ns) = Inr (PyNum m)
      \<and> (\<forall>n \<in> set (b # ns). num_val m \<le> num_val n)"
proof (induction ns arbitrary: b)
  case Nil
  then show ?case by simp
next
  case (Cons n ns)
  show ?case
  proof (cases "num_val n < num_val b")
    case True
    with Cons [of n] show ?thesis by auto
  next
    case False
    with Cons [of b] show ?thesis by auto
  qed
qed

lemma max_items_nums:
  "\<exists>m \<in> set (b # ns). max_items (PyNum b) (map PyNum ns) = Inr (PyNum m)
      \<and> (\<forall>n \<in> set (b # ns). num_val n \<le> num_val m)"
proof (induction ns arbitrary: b)
  case Nil
  then show ?case by simp
next
  case (Cons n ns)
  show ?case
  proof (cases "num_val b < num_val n")
    case True
    with Cons [of n] show ?thesis by auto
  next
    case False
    with Cons [of b] show ?thesis by auto
  qed
qed

lemma py_min_nums:
  assumes "2 \<le> length ns"
  shows "\<exists>m \<in> set ns. py_min (map PyNum ns) = Inr (PyNum m) \<and> (\<forall>n \<in> set ns. num_val m \<le> num_val n)"
proof -
  from assms obtain a b rest where ns: "ns = a # b # rest"
    by (cases ns; cases "tl ns") auto
  from min_items_nums [of a "b # rest"] show ?thesis
    by (simp add: py_min_def ns)
qed

lemma py_max_nums:
  assumes "2 \<le> length ns"
  shows "\<exists>m \<in> set ns. py_max (map PyNum ns) = Inr (PyNum m) \<and> (\<forall>n \<in> set ns. num_val n \<le> num_val m)"
proof -
  from assms obtain a b rest where ns: "ns = a # b # rest"
    by (cases ns; cases "tl ns") auto
  from max_items_nums [of a "b # rest"] show ?thesis
    by (simp add: py_max_def ns)
qed

lemma py_min_ints:
  assumes "2 \<le> length xs"
  shows "py_min (map (\<lambda>i. PyNum (PyInt i)) xs) = Inr (PyNum (PyInt (Min (set xs))))"
proof -
  from assms have len: "2 \<le> length (map PyInt xs)" by simp
  from py_min_nums [OF len] obtain m where m: "m \<in> set (map PyInt xs)"
    and r: "py_min (map PyNum (map PyInt xs)) = Inr (PyNum m)"
    and le: "\<forall>n \<in> set (map PyInt xs). num_val m \<le> num_val n"
    by blast
  from m obtain x where x: "x \<in> set xs" "m = PyInt x" by auto
  from le x have "\<forall>y \<in> set xs. x \<le> y" by simp
  with x have "Min (set xs) = x" by (intro Min_eqI) auto
  with r x show ?thesis by (simp add: comp_def)
qed

lemma py_max_ints:
  assumes "2 \<le> length xs"
  shows "py_max (map (\<lambda>i. PyNum (PyInt i)) xs) = Inr (PyNum (PyInt (Max (set xs))))"
proof -
  from assms have len: "2 \<le> length (map PyInt xs)" by simp
  from py_max_nums [OF len] obtain m where m: "m \<in> set (map PyInt xs)"
    and r: "py_max (map PyNum (map PyInt xs)) = Inr (PyNum m)"
    and le: "\<forall>n \<in> set (map PyInt xs). num_val n \<le> num_val m"
    by blast
  from m obtain x where x: "x \<in> set xs" "m = PyInt x" by auto
  from le x have "\<forall>y \<in> set xs. y \<le> x" by simp
  with x have "Max (set xs) = x" by (intro Max_eqI) auto
  with r x show ?thesis by (simp add: comp_def)
qed


subsection \<open>Reduced attributes\<close>

lemma trio_update: "async_update ha_light_consts trio_group trio_hass = Inr trio_group_updated"
  by code_simp

lemma reduced_mean_int:
  assumes "reduce_attribute sts key PyNone mean_int = Inr r"
  shows "(find_state_attributes sts key = [] \<longrightarrow> r = PyNone)
    \<and> (\<forall>v. find_state_attributes sts key = [v] \<longrightarrow> r = v)
    \<and> (\<forall>xs. 2 \<le> length xs \<and> find_state_attributes sts key = map (\<lambda>i. PyNum (PyInt i)) xs \<longrightarrow>
          r = PyNum (PyInt (sgn (sum_list xs) * (\<bar>sum_list xs\<bar> div int (length xs)))))"
proof (intro conjI allI impI)
  assume "find_state_attributes sts key = []"
  with assms show "r = PyNone" by (simp add: reduce_attribute_Nil)
next
  fix v assume "find_state_attributes sts key = [v]"
  with assms show "r = v" by (simp add: reduce_attribute_single)
next
  fix xs assume a: "2 \<le> length xs \<and> find_state_attributes sts key = map (\<lambda>i. PyNum (PyInt i)) xs"
  then have "2 \<le> length (find_state_attributes sts key)" and "xs \<noteq> []" by auto
  with assms a show "r = PyNum (PyInt (sgn (sum_list xs) * (\<bar>sum_list xs\<bar> div int (length xs))))"
    by (simp add: reduce_attribute_many mean_int_ints)
qed

lemma reduced_mean_tuple:
  assumes "reduce_attribute sts key PyNone mean_tuple = Inr r"
  shows "(find_state_attributes sts key = [] \<longrightarrow> r = PyNone)
    \<and> (\<forall>v. find_state_attributes sts key = [v] \<longrightarrow> r = v)
    \<and> (\<forall>ps. 2 \<le> length ps
          \<and> find_state_attributes sts key = map (\<lambda>(h, s). PyTuple [PyFloat h, PyFloat s]) ps \<longrightarrow>
          r = PyTuple [PyFloat (sum_list (map fst ps) / of_nat (length ps)),
                       PyFloat (sum_list (map snd ps) / of_nat (length ps))])"
proof (intro conjI allI impI)
  assume "find_state_attributes sts key = []"
  with assms show "r = PyNone" by (simp add: reduce_attribute_Nil)
next
  fix v assume "find_state_attributes sts key = [v]"
  with assms show "r = v" by (simp add: reduce_attribute_single)
next
  fix ps :: "(rat \<times> rat) list"
  assume a: "2 \<le> length ps
    \<and> find_state_attributes sts key = map (\<lambda>(h, s). PyTuple [PyFloat h, PyFloat s]) ps"
  define qs where "qs = map (\<lambda>(h, s). (PyFloat h, PyFloat s)) ps"
  have eq: "map (\<lambda>(h, s). PyTuple [PyFloat h, PyFloat s]) ps = map (\<lambda>(h, s). PyTuple [h, s]) qs"
    by (simp add: qs_def case_prod_beta)
  from a have ne: "qs \<noteq> []" and len: "2 \<le> length (find_state_attributes sts key)"
    by (auto simp: qs_def)
  have f: "map (num_val \<circ> fst) qs = map fst ps" and s: "map (num_val \<circ> snd) qs = map snd ps"
    by (simp_all add: qs_def case_prod_beta comp_def)
  have "length qs = length ps" by (simp add: qs_def)
  with assms a len mean_tuple_pairs [OF ne] f s
  show "r = PyTuple [PyFloat (sum_list (map fst ps) / of_nat (length ps)),
                       PyFloat (sum_list (map snd ps) / of_nat (length ps))]"
    by (simp add: reduce_attribute_many eq)
qed

lemma reduced_min:
  assumes "reduce_attribute sts key d py_min = Inr r"
  shows "(find_state_attributes sts key = [] \<longrightarrow> r = d)
    \<and> (\<forall>v. find_state_attributes sts key = [v] \<longrightarrow> r = v)
    \<and> (\<forall>xs. 2 \<le> length xs \<and> find_state_attributes sts key = map (\<lambda>i. PyNum (PyInt i)) xs \<longrightarrow>
          r = PyNum (PyInt (Min (set xs))))"
proof (intro conjI allI impI)
  assume "find_state_attributes sts key = []"
  with assms show "r = d" by (simp add: reduce_attribute_Nil)
next
  fix v assume "find_state_attributes sts key = [v]"
  with assms show "r = v" by (simp add: reduce_attribute_single)
next
  fix xs assume a: "2 \<le> length xs \<and> find_state_attributes sts key = map (\<lambda>i. PyNum (PyInt i)) xs"
  then have "2 \<le> length (find_state_attributes sts key)" by auto
  with assms a show "r = PyNum (PyInt (Min (set xs)))"
    by (simp add: reduce_attribute_many py_min_ints)
qed

lemma reduced_max:
  assumes "reduce_attribute sts key d py_max = Inr r"
  shows "(find_state_attributes sts key = [] \<longrightarrow> r = d)
    \<and> (\<forall>v. find_state_attributes sts key = [v] \<longrightarrow> r = v)
    \<and> (\<forall>xs. 2 \<le> length xs \<and> find_state_attributes sts key = map (\<lambda>i. PyNum (PyInt i)) xs \<longrightarrow>
          r = PyNum (PyInt (Max (set xs))))"
proof (intro conjI allI impI)
  assume "find_state_attributes sts key = []"
  with assms show "r = d" by (simp add: reduce_attribute_Nil)
next
  fix v assume "find_state_attributes sts key = [v]"
  with assms show "r = v" by (simp add: reduce_attribute_single)
next
  fix xs assume a: "2 \<le> length xs \<and> find_state_attributes sts key = map (\<lambda>i. PyNum (PyInt i)) xs"
  then have "2 \<le> length (find_state_attributes sts key)" by auto
  with assms a show "r = PyNum (PyInt (Max (set xs)))"
    by (simp add: reduce_attribute_many py_max_ints)
qed

lemma async_update_fields:
  assumes "async_update lc self hass = Inr self'"
  shows "reduce_attribute (snd (get_states_and_on_states self hass)) ATTR_BRIGHTNESS PyNone mean_int = Inr (brightness self')"
    and "reduce_attribute (snd (get_states_and_on_states self hass)) ATTR_HS_COLOR PyNone mean_tuple = Inr (hs_color self')"
    and "reduce_attribute (snd (get_states_and_on_states self hass)) ATTR_WHITE_VALUE PyNone mean_int = Inr (white_value self')"
    and "reduce_attribute (snd (get_states_and_on_states self hass)) ATTR_COLOR_TEMP PyNone mean_int = Inr (color_temp self')"
    and "reduce_attribute (fst (get_states_and_on_states self hass)) ATTR_MIN_MIREDS (PyNum (PyInt 154)) py_min = Inr (min_mireds self')"
    and "reduce_attribute (fst (get_states_and_on_states self hass)) ATTR_MAX_MIREDS (PyNum (PyInt 500)) py_max = Inr (max_mireds self')"
  using async_update_Inr [OF assms] by (elim exE conjE, simp)+





subsection \<open>Counting effects\<close>


lemma counter_incr_str_old:
  assumes "distinct (map fst c)" and "\<forall>k \<in> set (map fst c). \<exists>s. k = PyStr s"
    and "PyStr t \<in> set (map fst c)"
  shows "counter_incr (PyStr t) c = map (\<lambda>(k, n). if k = PyStr t then (k, n + 1) else (k, n)) c"
  using assms
proof (induction c)
  case Nil
  then show ?case by simp
next
  case (Cons kc c)
  obtain k n where kc: "kc = (k, n)" by (cases kc)
  from Cons.prems kc obtain s where s: "k = PyStr s" by auto
  show ?case
  proof (cases "s = t")
    case True
    with Cons.prems kc s have "PyStr t \<notin> set (map fst c)" by auto
    then have "map (\<lambda>(k, n). if k = PyStr t then (k, n + 1) else (k, n)) c = c"
      by (induction c) auto
    with True kc s show ?thesis by simp
  next
    case False
    with Cons.prems kc s have "PyStr t \<in> set (map fst c)" by auto
    with Cons kc s False show ?thesis by auto
  qed
qed

lemma counter_incr_str_new:
  assumes "\<forall>k \<in> set (map fst c). \<exists>s. k = PyStr s" and "PyStr t \<notin> set (map fst c)"
  shows "counter_incr (PyStr t) c = c @ [(PyStr t, 1)]"
  using assms by (induction c) auto

lemma firsts_snoc:
  "rev (remdups (rev (pre @ [x]))) =
     (if x \<in> set pre then rev (remdups (rev pre)) else rev (remdups (rev pre)) @ [x])"
  by simp

lemma Counter_from_strs:
  assumes "\<forall>x \<in> set xs. \<exists>s. x = PyStr s" and "\<forall>x \<in> set pre. \<exists>s. x = PyStr s"
  shows "Counter_from (map (\<lambda>k. (k, count_list pre k)) (rev (remdups (rev pre)))) xs =
     Inr (map (\<lambda>k. (k, count_list (pre @ xs) k)) (rev (remdups (rev (pre @ xs)))))"
  using assms
proof (induction xs arbitrary: pre)
  case Nil
  then show ?case by simp
next
  case (Cons x xs)
  then obtain t where t: "x = PyStr t" by auto
  let ?c = "map (\<lambda>k. (k, count_list pre k)) (rev (remdups (rev pre)))"
  have keys: "map fst ?c = rev (remdups (rev pre))"
    by (simp add: comp_def)
  have strs: "\<forall>k \<in> set (map fst ?c). \<exists>s. k = PyStr s"
    using Cons.prems(2) by (simp add: keys)
  have step: "counter_incr x ?c =
      map (\<lambda>k. (k, count_list (pre @ [x]) k)) (rev (remdups (rev (pre @ [x]))))"
  proof (cases "x \<in> set pre")
    case True
    have "distinct (map fst ?c)" unfolding keys by simp
    moreover from True have "x \<in> set (map fst ?c)" by (simp add: keys)
    ultimately have "counter_incr (PyStr t) ?c =
        map (\<lambda>(k, n). if k = PyStr t then (k, n + 1) else (k, n)) ?c"
      using strs t by (intro counter_incr_str_old) auto
    with t True show ?thesis
      by (simp add: comp_def)
  next
    case False
    then have "PyStr t \<notin> set (map fst ?c)" using t unfolding keys by simp
    with strs have "counter_incr (PyStr t) ?c = ?c @ [(PyStr t, 1)]"
      by (rule counter_incr_str_new)
    then have A: "counter_incr x ?c = ?c @ [(x, 1)]" using t by simp
    from False have B: "rev (remdups (rev (pre @ [x]))) = rev (remdups (rev pre)) @ [x]"
      by simp
    from False have C: "(x, count_list (pre @ [x]) x) = (x, 1)"
      by (simp add: count_list_0_iff)
    have D: "map (\<lambda>k. (k, count_list (pre @ [x]) k)) (rev (remdups (rev pre))) = ?c"
    proof (rule map_cong [OF refl])
      fix k assume "k \<in> set (rev (remdups (rev pre)))"
      then have "k \<in> set pre" by simp
      with False have "k \<noteq> x" by blast
      then show "(k, count_list (pre @ [x]) k) = (k, count_list pre k)" by simp
    qed
    show ?thesis
      unfolding A B map_append D using C by simp
  qed
  have "\<forall>y \<in> set (pre @ [x]). \<exists>s. y = PyStr s"
    using Cons.prems t by auto
  with Cons.IH [of "pre @ [x]"] Cons.prems(1) step t show ?case
    by simp
qed

lemma Counter_strs:
  assumes "\<forall>x \<in> set xs. \<exists>s. x = PyStr s"
  shows "Counter xs = Inr (map (\<lambda>k. (k, count_list xs k)) (rev (remdups (rev xs))))"
  using Counter_from_strs [OF assms, of "[]"] by (simp add: Counter_def)


lemma max_by_count_split:
  "\<exists>c1 c2. best # items = c1 @ max_by_count best items # c2
     \<and> (\<forall>i \<in> set c1. snd i < snd (max_by_count best items))
     \<and> (\<forall>i \<in> set c2. snd i \<le> snd (max_by_count best items))"
proof (induction items arbitrary: best)
  case Nil
  have "[best] = [] @ max_by_count best [] # []
      \<and> (\<forall>i \<in> set []. snd i < snd (max_by_count best []))
      \<and> (\<forall>i \<in> set []. snd i \<le> snd (max_by_count best []))"
    by simp
  then show ?case by blast
next
  case (Cons item items)
  show ?case
  proof (cases "snd best < snd item")
    case True
    from Cons [of item] obtain c1 c2 where
      s: "item # items = c1 @ max_by_count item items # c2"
      and l: "\<forall>i \<in> set c1. snd i < snd (max_by_count item items)"
      and r: "\<forall>i \<in> set c2. snd i \<le> snd (max_by_count item items)"
      by blast
    have "snd item \<le> snd (max_by_count item items)"
    proof (cases c1)
      case Nil
      with s have "max_by_count item items = item" by (metis append_Nil list.inject)
      then show ?thesis by simp
    next
      case (Cons a c1')
      with s have "a = item" by simp
      with l Cons show ?thesis by simp
    qed
    with True have lt: "snd best < snd (max_by_count item items)" by simp
    from True have mb: "max_by_count best (item # items) = max_by_count item items" by simp
    have "best # item # items = (best # c1) @ max_by_count item items # c2"
      using s by simp
    moreover have "\<forall>i \<in> set (best # c1). snd i < snd (max_by_count item items)"
      using l lt by simp
    ultimately have "best # item # items = (best # c1) @ max_by_count best (item # items) # c2
      \<and> (\<forall>i \<in> set (best # c1). snd i < snd (max_by_count best (item # items)))
      \<and> (\<forall>i \<in> set c2. snd i \<le> snd (max_by_count best (item # items)))"
      using r unfolding mb by blast
    then show ?thesis by blast
  next
    case False
    from Cons [of best] obtain c1 c2 where
      s: "best # items = c1 @ max_by_count best items # c2"
      and l: "\<forall>i \<in> set c1. snd i < snd (max_by_count best items)"
      and r: "\<forall>i \<in> set c2. snd i \<le> snd (max_by_count best items)"
      by blast
    from False have mb: "max_by_count best (item # items) = max_by_count best items" by simp
    show ?thesis
    proof (cases c1)
      case Nil
      with s have b: "max_by_count best items = best" and c2: "c2 = items"
        by (metis append_Nil list.inject)+
      have "best # item # items = [] @ best # (item # items)" by simp
      moreover have "\<forall>i \<in> set (item # items). snd i \<le> snd best"
        using False r b c2 by simp
      ultimately have "best # item # items = [] @ max_by_count best (item # items) # (item # items)
        \<and> (\<forall>i \<in> set []. snd i < snd (max_by_count best (item # items)))
        \<and> (\<forall>i \<in> set (item # items). snd i \<le> snd (max_by_count best (item # items)))"
        unfolding mb b by simp
      then show ?thesis by blast
    next
      case (Cons a c1')
      with s have a: "a = best" and rest: "items = c1' @ max_by_count best items # c2"
        by (metis append_Cons list.inject)+
      from l Cons a have "snd best < snd (max_by_count best items)" by simp
      with False have lt: "snd item < snd (max_by_count best items)" by simp
      have "best # item # items = (best # item # c1') @ max_by_count best items # c2"
        using rest by simp
      moreover have "\<forall>i \<in> set (best # item # c1'). snd i < snd (max_by_count best items)"
        using l lt Cons a by simp
      ultimately have "best # item # items = (best # item # c1') @ max_by_count best (item # items) # c2
        \<and> (\<forall>i \<in> set (best # item # c1'). snd i < snd (max_by_count best (item # items)))
        \<and> (\<forall>i \<in> set c2. snd i \<le> snd (max_by_count best (item # items)))"
        using r unfolding mb by blast
      then show ?thesis by blast
    qed
  qed
qed


lemma firsts_split:
  "rev (remdups (rev xs)) = k1 @ e # k2 \<Longrightarrow>
     \<exists>p1 p2. xs = p1 @ e # p2 \<and> e \<notin> set p1 \<and> set p1 = set k1"
proof (induction xs arbitrary: k2 rule: rev_induct)
  case Nil
  then show ?case by simp
next
  case (snoc x ys)
  show ?case
  proof (cases "x \<in> set ys")
    case True
    with snoc.prems have "rev (remdups (rev ys)) = k1 @ e # k2" by simp
    from snoc.IH [OF this] obtain p1 p2 where "ys = p1 @ e # p2" "e \<notin> set p1" "set p1 = set k1"
      by blast
    then have "ys @ [x] = p1 @ e # (p2 @ [x]) \<and> e \<notin> set p1 \<and> set p1 = set k1" by simp
    then show ?thesis by blast
  next
    case False
    with snoc.prems have eq: "rev (remdups (rev ys)) @ [x] = k1 @ e # k2" by simp
    show ?thesis
    proof (cases k2 rule: rev_cases)
      case Nil
      with eq have "rev (remdups (rev ys)) = k1" "x = e" by simp_all
      then have "set ys = set k1" by (metis set_remdups set_rev)
      with False \<open>x = e\<close> have "ys @ [x] = ys @ e # [] \<and> e \<notin> set ys \<and> set ys = set k1" by simp
      then show ?thesis by blast
    next
      case (snoc k2' y)
      with eq have "rev (remdups (rev ys)) = k1 @ e # k2'" by simp
      from snoc.IH [OF this] obtain p1 p2 where "ys = p1 @ e # p2" "e \<notin> set p1" "set p1 = set k1"
        by blast
      then have "ys @ [x] = p1 @ e # (p2 @ [x]) \<and> e \<notin> set p1 \<and> set p1 = set k1" by simp
      then show ?thesis by blast
    qed
  qed
qed


lemma tagged_split:
  assumes "map (\<lambda>k. (k, f k)) keys = c1 @ r # c2"
  shows "keys = map fst c1 @ fst r # map fst c2"
    and "snd r = f (fst r)"
    and "\<forall>i \<in> set c1. snd i = f (fst i)"
    and "\<forall>i \<in> set c2. snd i = f (fst i)"
proof -
  have "map fst (map (\<lambda>k. (k, f k)) keys) = keys"
    by (simp add: comp_def)
  then show "keys = map fst c1 @ fst r # map fst c2"
    unfolding assms by simp
  have all: "\<forall>i \<in> set (map (\<lambda>k. (k, f k)) keys). snd i = f (fst i)"
    by simp
  then show "snd r = f (fst r)" "\<forall>i \<in> set c1. snd i = f (fst i)" "\<forall>i \<in> set c2. snd i = f (fst i)"
    unfolding assms by simp_all
qed

lemma most_common_strs:
  assumes strs: "\<forall>x \<in> set xs. \<exists>s. x = PyStr s" and ne: "xs \<noteq> []"
  shows "\<exists>e pre post.
      ebind (Counter xs) (\<lambda>effects_count. case most_common1 effects_count of
                         [] \<Rightarrow> Inl IndexError
                       | (k, c) # others \<Rightarrow> Inr k) = Inr e
    \<and> xs = pre @ e # post \<and> e \<notin> set pre
    \<and> (\<forall>x \<in> set pre. count_list xs x < count_list xs e)
    \<and> (\<forall>x \<in> set post. count_list xs x \<le> count_list xs e)"
proof -
  define keys where "keys = rev (remdups (rev xs))"
  define cnt where "cnt = map (\<lambda>k. (k, count_list xs k)) keys"
  have set_keys: "set keys = set xs" by (simp add: keys_def)
  with ne have "cnt \<noteq> []" by (auto simp: cnt_def)
  then obtain best items where c: "cnt = best # items" by (cases cnt) auto
  define r where "r = max_by_count best items"
  from max_by_count_split [of best items] obtain c1 c2 where
    s: "cnt = c1 @ r # c2" and l: "\<forall>i \<in> set c1. snd i < snd r" and u: "\<forall>i \<in> set c2. snd i \<le> snd r"
    unfolding c r_def by blast
  note t = tagged_split [OF s [unfolded cnt_def]]
  from firsts_split [OF t(1) [unfolded keys_def]] obtain pre post where
    xs: "xs = pre @ fst r # post" and npre: "fst r \<notin> set pre" and pre: "set pre = set (map fst c1)"
    by blast
  have "Counter xs = Inr cnt"
    unfolding cnt_def keys_def by (rule Counter_strs [OF strs])
  then have res: "ebind (Counter xs) (\<lambda>effects_count. case most_common1 effects_count of
                         [] \<Rightarrow> Inl IndexError
                       | (k, c) # others \<Rightarrow> Inr k) = Inr (fst r)"
    by (simp add: c most_common1_def r_def case_prod_beta)
  have lt: "\<forall>x \<in> set pre. count_list xs x < count_list xs (fst r)"
  proof
    fix x assume "x \<in> set pre"
    with pre obtain i where i: "i \<in> set c1" "x = fst i" by auto
    with t(3) have "snd i = count_list xs x" by simp
    moreover from l i have "snd i < snd r" by blast
    ultimately show "count_list xs x < count_list xs (fst r)"
      using t(2) by simp
  qed
  have le: "\<forall>x \<in> set post. count_list xs x \<le> count_list xs (fst r)"
  proof
    fix x assume "x \<in> set post"
    have "set (pre @ fst r # post) = set xs" using xs by simp
    with \<open>x \<in> set post\<close> have "x \<in> set keys" unfolding set_keys by auto
    then have "x \<in> set (map fst c1 @ fst r # map fst c2)" using t(1) by simp
    then consider (a) i where "i \<in> set c1" "x = fst i" | (b) "x = fst r"
      | (c) i where "i \<in> set c2" "x = fst i" by auto
    then show "count_list xs x \<le> count_list xs (fst r)"
    proof cases
      case a
      with t(3) have "snd i = count_list xs x" by simp
      moreover from l a have "snd i < snd r" by blast
      ultimately show ?thesis using t(2) by simp
    next
      case b
      then show ?thesis by simp
    next
      case c
      with t(4) have "snd i = count_list xs x" by simp
      moreover from u c have "snd i \<le> snd r" by blast
      ultimately show ?thesis using t(2) by simp
    qed
  qed
  from res xs npre lt le show ?thesis by blast
qed


subsection \<open>Effect and effect list\<close>

lemma py_eq_str: "py_eq y (PyStr t) \<longleftrightarrow> y = PyStr t"
  by (cases y) simp_all

lemma set_add_str: "set_add (PyStr t) s = (if PyStr t \<in> set s then s else s @ [PyStr t])"
  by (simp add: set_add_def list_ex_iff py_eq_str)

lemma fold_set_add_strs:
  "set (fold set_add (map PyStr ts) s) = set s \<union> PyStr ` set ts
   \<and> (distinct s \<longrightarrow> distinct (fold set_add (map PyStr ts) s))"
  by (induction ts arbitrary: s) (auto simp: set_add_str)

lemma set_union_from_lists:
  "\<exists>u. set_union_from s (map PyList ls) = Inr u
     \<and> set u = set s \<union> PyStr ` (\<Union> (set ` set ls))
     \<and> (distinct s \<longrightarrow> distinct u)"
proof (induction ls arbitrary: s)
  case Nil
  then show ?case by simp
next
  case (Cons l ls)
  from Cons [of "fold set_add (map PyStr l) s"] obtain u where
    u: "set_union_from (fold set_add (map PyStr l) s) (map PyList ls) = Inr u"
    and su: "set u = set (fold set_add (map PyStr l) s) \<union> PyStr ` (\<Union> (set ` set ls))"
    and du: "distinct (fold set_add (map PyStr l) s) \<longrightarrow> distinct u"
    by blast
  from fold_set_add_strs [of l s] have
    sf: "set (fold set_add (map PyStr l) s) = set s \<union> PyStr ` set l"
    and df: "distinct s \<longrightarrow> distinct (fold set_add (map PyStr l) s)"
    by blast+
  have "set_union_from s (map PyList (l # ls)) = Inr u" using u by simp
  moreover have "set u = set s \<union> PyStr ` (\<Union> (set ` set (l # ls)))"
    unfolding su sf by auto
  moreover have "distinct s \<longrightarrow> distinct u" using du df by blast
  ultimately show ?case by blast
qed

lemma set_union_lists:
  "\<exists>u. set_union (map PyList ls) = Inr u \<and> set u = PyStr ` (\<Union> (set ` set ls)) \<and> distinct u"
  using set_union_from_lists [of "[]" ls] by (simp add: set_union_def)

lemma async_update_effect_fields:
  assumes "async_update lc self hass = Inr self'"
  shows "(if find_state_attributes (fst (get_states_and_on_states self hass)) ATTR_EFFECT_LIST \<noteq> []
        then ebind (set_union (find_state_attributes (fst (get_states_and_on_states self hass)) ATTR_EFFECT_LIST))
               (\<lambda>u. Inr (Some u))
        else Inr None) = Inr (effect_list self')"
    and "(if find_state_attributes (snd (get_states_and_on_states self hass)) ATTR_EFFECT \<noteq> []
        then ebind (Counter (find_state_attributes (snd (get_states_and_on_states self hass)) ATTR_EFFECT))
               (\<lambda>effects_count. case most_common1 effects_count of
                         [] \<Rightarrow> Inl IndexError
                       | (k, c) # others \<Rightarrow> Inr k)
        else Inr PyNone) = Inr (effect self')"
  using async_update_Inr [OF assms] by (elim exE conjE, simp)+


text \<open>
  Claim C8. After an update that returns, with the effect lists reported by the members
  that have a state being lists of strings: the group's effect list is \<open>None\<close> when no
  member reports one; otherwise its members are exactly the members of the reported
  lists, each once (Python leaves the order of \<open>list(set(...))\<close> unspecified, so the
  result is described as a set). When exactly one member reports an effect list, the
  group's effect list has exactly the members of that list.
\<close>

theorem effect_list_union:
  assumes "async_update lc self hass = Inr self'"
    and "find_state_attributes (fst (get_states_and_on_states self hass)) ATTR_EFFECT_LIST =
           map PyList ls"
  shows "(ls = [] \<longrightarrow> effect_list self' = None)
    \<and> (ls \<noteq> [] \<longrightarrow>
         (\<exists>u. effect_list self' = Some u \<and> distinct u \<and> set u = PyStr ` (\<Union> (set ` set ls))))
    \<and> (\<forall>l. ls = [l] \<longrightarrow>
         (\<exists>u. effect_list self' = Some u \<and> distinct u \<and> set u = set (map PyStr l)))"
proof -
  note f = async_update_effect_fields(1) [OF assms(1), unfolded assms(2)]
  from set_union_lists [of ls] obtain u where
    u: "set_union (map PyList ls) = Inr u" and s: "set u = PyStr ` (\<Union> (set ` set ls))"
    and d: "distinct u"
    by blast
  have a: "effect_list self' = None" if "ls = []"
    using f that by simp
  have b: "effect_list self' = Some u" if "ls \<noteq> []"
    using f that u by simp
  have c: "\<exists>u. effect_list self' = Some u \<and> distinct u \<and> set u = set (map PyStr l)" if "ls = [l]" for l
  proof -
    from that have "ls \<noteq> []" by simp
    then have "effect_list self' = Some u" by (rule b)
    moreover from s that have "set u = set (map PyStr l)" by simp
    ultimately show ?thesis using d by blast
  qed
  from a b c s d show ?thesis by blast
qed



theorem effect_list_union_witness:
  "(\<exists>self'. async_update ha_light_consts effects_pair effects_hass = Inr self'
      \<and> (\<exists>u. effect_list self' = Some u \<and> distinct u
            \<and> set u = {PyStr ''colorloop'', PyStr ''random'', PyStr ''strobe''}))
   \<and> (\<exists>self'. async_update ha_light_consts effects_single effects_hass = Inr self'
      \<and> (\<exists>u. effect_list self' = Some u \<and> distinct u
            \<and> set u = set (map PyStr [''colorloop'', ''random''])))"
proof -
  have p: "find_state_attributes (fst (get_states_and_on_states effects_pair effects_hass))
      ATTR_EFFECT_LIST = map PyList [[''colorloop'', ''random''], [''random'', ''strobe'']]"
    by code_simp
  have s: "find_state_attributes (fst (get_states_and_on_states effects_single effects_hass))
      ATTR_EFFECT_LIST = map PyList [[''colorloop'', ''random'']]"
    by code_simp
  have up: "async_update ha_light_consts effects_pair effects_hass =
      Inr (effects_pair\<lparr>is_on := True, main_lights_on := True, available := True,
        effect_list := Some [PyStr ''colorloop'', PyStr ''random'', PyStr ''strobe'']\<rparr>)"
    by code_simp
  have us: "async_update ha_light_consts effects_single effects_hass =
      Inr (effects_single\<lparr>is_on := True, main_lights_on := True, available := True,
        effect_list := Some [PyStr ''colorloop'', PyStr ''random'']\<rparr>)"
    by code_simp
  let ?p = "effects_pair\<lparr>is_on := True, main_lights_on := True, available := True,
        effect_list := Some [PyStr ''colorloop'', PyStr ''random'', PyStr ''strobe'']\<rparr>"
  let ?s = "effects_single\<lparr>is_on := True, main_lights_on := True, available := True,
        effect_list := Some [PyStr ''colorloop'', PyStr ''random'']\<rparr>"
  have "\<exists>u. effect_list ?p = Some u \<and> distinct u
         \<and> set u = PyStr ` (\<Union> (set ` set [[''colorloop'', ''random''], [''random'', ''strobe'']]))"
    by (rule effect_list_union [OF up p, THEN conjunct2, THEN conjunct1, THEN mp]) simp
  moreover have "PyStr ` (\<Union> (set ` set [[''colorloop'', ''random''], [''random'', ''strobe'']])) =
      {PyStr ''colorloop'', PyStr ''random'', PyStr ''strobe''}"
    by auto
  ultimately have a: "\<exists>u. effect_list ?p = Some u \<and> distinct u
         \<and> set u = {PyStr ''colorloop'', PyStr ''random'', PyStr ''strobe''}"
    by (simp only:)
  have b: "\<exists>u. effect_list ?s = Some u \<and> distinct u
         \<and> set u = set (map PyStr [''colorloop'', ''random''])"
    by (rule effect_list_union [OF us s, THEN conjunct2, THEN conjunct2, THEN spec, THEN mp])
      simp
  from up a have "\<exists>self'. async_update ha_light_consts effects_pair effects_hass = Inr self'
      \<and> (\<exists>u. effect_list self' = Some u \<and> distinct u
            \<and> set u = {PyStr ''colorloop'', PyStr ''random'', PyStr ''strobe''})"
    by (intro exI [of _ ?p] conjI)
  moreover from us b have "\<exists>self'. async_update ha_light_consts effects_single effects_hass = Inr self'
      \<and> (\<exists>u. effect_list self' = Some u \<and> distinct u
            \<and> set u = set (map PyStr [''colorloop'', ''random'']))"
    by (intro exI [of _ ?s] conjI)
  ultimately show ?thesis by (rule conjI)
qed


subsection \<open>A member in both lists\<close>

lemma dup_update: "async_update ha_light_consts dup_group dup_hass = Inr dup_group_updated"
  by code_simp

lemma init_entity_ids:
  "entity_ids (init nm main aux) = main_lights (init nm main aux) @ aux_lights (init nm main aux)"
  by (simp add: init_def)

lemma async_update_members:
  assumes "async_update lc self hass = Inr self'"
  shows "main_lights self' = main_lights self" and "aux_lights self' = aux_lights self"
    and "entity_ids self' = entity_ids self"
  using async_update_Inr [OF assms] by (elim exE conjE, simp)+

lemma map_filter_append:
  "List.map_filter f (xs @ ys) = List.map_filter f xs @ List.map_filter f ys"
  by (simp add: List.map_filter_def)

lemma count_list_map_filter:
  "f m = Some s \<Longrightarrow> count_list xs m \<le> count_list (List.map_filter f xs) s"
  by (induction xs) (auto simp: List.map_filter_simps split: option.splits)

lemma count_list_filter: "P s \<Longrightarrow> count_list (filter P xs) s = count_list xs s"
  by (induction xs) auto

lemma count_list_map: "count_list xs s \<le> count_list (map g xs) (g s)"
  by (induction xs) auto

lemma count_find_state_attributes:
  assumes "dict_get (attributes s) key \<noteq> PyNone"
  shows "count_list sts s \<le> count_list (find_state_attributes sts key) (dict_get (attributes s) key)"
proof -
  have "count_list sts s \<le> count_list (map (\<lambda>st. dict_get (attributes st) key) sts)
      (dict_get (attributes s) key)"
    by (rule count_list_map)
  also have "\<dots> = count_list (find_state_attributes sts key) (dict_get (attributes s) key)"
    unfolding find_state_attributes_def using assms by (simp add: count_list_filter)
  finally show ?thesis .
qed

text \<open>
  Claim C10. When a member is in both the main and the auxiliary list of a group built
  by \<open>__init__\<close>, it occurs in \<open>entity_ids\<close> once for each of its occurrences in the two
  lists, so at least twice. The states gathered on an update are those of the main
  list followed by those of the auxiliary list, so the member's state is gathered at
  least twice, among the states that are on as well when it is on, and every
  attribute value it reports occurs at least twice among the values handed to the
  reducer of its key. The target list of every \<open>async_turn_off\<close> call is \<open>entity_ids\<close>
  and contains the member at least twice.
\<close>

theorem duplicate_member_counted_twice:
  assumes "entity_ids self = main_lights self @ aux_lights self"
    and "m \<in> set (main_lights self)" and "m \<in> set (aux_lights self)"
  shows "count_list (entity_ids self) m = count_list (main_lights self) m + count_list (aux_lights self) m
    \<and> 2 \<le> count_list (entity_ids self) m
    \<and> fst (get_states_and_on_states self hass) =
        fst (get_states_and_on_states (self\<lparr>entity_ids := main_lights self\<rparr>) hass)
        @ fst (get_states_and_on_states (self\<lparr>entity_ids := aux_lights self\<rparr>) hass)
    \<and> snd (get_states_and_on_states self hass) =
        snd (get_states_and_on_states (self\<lparr>entity_ids := main_lights self\<rparr>) hass)
        @ snd (get_states_and_on_states (self\<lparr>entity_ids := aux_lights self\<rparr>) hass)
    \<and> (\<forall>s. hass_states hass m = Some s \<longrightarrow>
          2 \<le> count_list (fst (get_states_and_on_states self hass)) s
        \<and> (state s = STATE_ON \<longrightarrow> 2 \<le> count_list (snd (get_states_and_on_states self hass)) s)
        \<and> (\<forall>key. dict_get (attributes s) key \<noteq> PyNone \<longrightarrow>
              2 \<le> count_list (find_state_attributes (fst (get_states_and_on_states self hass)) key)
                    (dict_get (attributes s) key)
            \<and> (state s = STATE_ON \<longrightarrow>
                2 \<le> count_list (find_state_attributes (snd (get_states_and_on_states self hass)) key)
                      (dict_get (attributes s) key))))
    \<and> (\<forall>kwargs. \<exists>data.
          async_turn_off self hass kwargs =
            hass\<lparr>service_calls := service_calls hass @
              [\<lparr>domain = DOMAIN, service = SERVICE_TURN_OFF, service_data = data, blocking = True\<rparr>]\<rparr>
        \<and> map_of data ATTR_ENTITY_ID = Some (PyList (entity_ids self)))"
proof -
  have c: "count_list (entity_ids self) m =
      count_list (main_lights self) m + count_list (aux_lights self) m"
    by (simp add: assms(1))
  have "0 < count_list (main_lights self) m" "0 < count_list (aux_lights self) m"
    using assms(2,3) by (simp_all add: count_list_0_iff zero_less_iff_neq_zero)
  with c have two: "2 \<le> count_list (entity_ids self) m" by simp
  have sts: "fst (get_states_and_on_states self hass) =
        fst (get_states_and_on_states (self\<lparr>entity_ids := main_lights self\<rparr>) hass)
        @ fst (get_states_and_on_states (self\<lparr>entity_ids := aux_lights self\<rparr>) hass)"
    and ons: "snd (get_states_and_on_states self hass) =
        snd (get_states_and_on_states (self\<lparr>entity_ids := main_lights self\<rparr>) hass)
        @ snd (get_states_and_on_states (self\<lparr>entity_ids := aux_lights self\<rparr>) hass)"
    by (simp_all add: get_states_and_on_states_eq assms(1) map_filter_append)
  have member: "2 \<le> count_list (fst (get_states_and_on_states self hass)) s
        \<and> (state s = STATE_ON \<longrightarrow> 2 \<le> count_list (snd (get_states_and_on_states self hass)) s)
        \<and> (\<forall>key. dict_get (attributes s) key \<noteq> PyNone \<longrightarrow>
              2 \<le> count_list (find_state_attributes (fst (get_states_and_on_states self hass)) key)
                    (dict_get (attributes s) key)
            \<and> (state s = STATE_ON \<longrightarrow>
                2 \<le> count_list (find_state_attributes (snd (get_states_and_on_states self hass)) key)
                      (dict_get (attributes s) key)))"
    if s: "hass_states hass m = Some s" for s
  proof -
    let ?states = "List.map_filter (hass_states hass) (entity_ids self)"
    let ?on = "filter (\<lambda>st. state st = STATE_ON) ?states"
    from count_list_map_filter [of "hass_states hass" m s "entity_ids self", OF s] two
    have a: "2 \<le> count_list ?states s" by simp
    then have b: "2 \<le> count_list ?on s" if "state s = STATE_ON"
      using that by (simp add: count_list_filter)
    have k: "2 \<le> count_list (find_state_attributes ?states key) (dict_get (attributes s) key)"
      if "dict_get (attributes s) key \<noteq> PyNone" for key
      using count_find_state_attributes [OF that, of ?states] a by simp
    have k': "2 \<le> count_list (find_state_attributes ?on key) (dict_get (attributes s) key)"
      if "dict_get (attributes s) key \<noteq> PyNone" "state s = STATE_ON" for key
      using count_find_state_attributes [OF that(1), of ?on] b [OF that(2)] by simp
    from a b k k' show ?thesis
      unfolding get_states_and_on_states_eq fst_conv snd_conv by blast
  qed
  have off: "\<exists>data.
          async_turn_off self hass kwargs =
            hass\<lparr>service_calls := service_calls hass @
              [\<lparr>domain = DOMAIN, service = SERVICE_TURN_OFF, service_data = data, blocking = True\<rparr>]\<rparr>
        \<and> map_of data ATTR_ENTITY_ID = Some (PyList (entity_ids self))" for kwargs
  proof -
    define data where "data = copy_key ATTR_TRANSITION kwargs [(ATTR_ENTITY_ID, PyList (entity_ids self))]"
    have "async_turn_off self hass kwargs =
       hass\<lparr>service_calls := service_calls hass @
         [\<lparr>domain = DOMAIN, service = SERVICE_TURN_OFF, service_data = data, blocking = True\<rparr>]\<rparr>"
      by (simp add: async_turn_off_def async_call_def Let_def data_def)
    moreover have "ATTR_ENTITY_ID \<noteq> ATTR_TRANSITION"
      by (simp add: ATTR_ENTITY_ID_def ATTR_TRANSITION_def)
    then have "map_of data ATTR_ENTITY_ID = Some (PyList (entity_ids self))"
      by (simp add: data_def copy_key_map_of)
    ultimately show ?thesis by blast
  qed
  from member have member': "\<forall>s. hass_states hass m = Some s \<longrightarrow>
          2 \<le> count_list (fst (get_states_and_on_states self hass)) s
        \<and> (state s = STATE_ON \<longrightarrow> 2 \<le> count_list (snd (get_states_and_on_states self hass)) s)
        \<and> (\<forall>key. dict_get (attributes s) key \<noteq> PyNone \<longrightarrow>
              2 \<le> count_list (find_state_attributes (fst (get_states_and_on_states self hass)) key)
                    (dict_get (attributes s) key)
            \<and> (state s = STATE_ON \<longrightarrow>
                2 \<le> count_list (find_state_attributes (snd (get_states_and_on_states self hass)) key)
                      (dict_get (attributes s) key)))"
    by (intro allI impI)
  from off have off': "\<forall>kwargs. \<exists>data.
          async_turn_off self hass kwargs =
            hass\<lparr>service_calls := service_calls hass @
              [\<lparr>domain = DOMAIN, service = SERVICE_TURN_OFF, service_data = data, blocking = True\<rparr>]\<rparr>
        \<and> map_of data ATTR_ENTITY_ID = Some (PyList (entity_ids self))"
    by (intro allI)
  from c two sts ons member' off' show ?thesis
    by (intro conjI)
qed


theorem duplicate_member_counted_twice_witness:
  "count_list (entity_ids dup_group) ''light.a'' = 2
   \<and> find_state_attributes (snd (get_states_and_on_states dup_group dup_hass)) ATTR_BRIGHTNESS =
       [PyNum (PyInt 100), PyNum (PyInt 106), PyNum (PyInt 100)]
   \<and> 2 \<le> count_list (find_state_attributes (snd (get_states_and_on_states dup_group dup_hass))
           ATTR_BRIGHTNESS) (PyNum (PyInt 100))
   \<and> async_update ha_light_consts dup_group dup_hass = Inr dup_group_updated
   \<and> brightness dup_group_updated = PyNum (PyInt 102)
   \<and> (\<exists>data.
         async_turn_off dup_group dup_hass [] =
           dup_hass\<lparr>service_calls := service_calls dup_hass @
             [\<lparr>domain = DOMAIN, service = SERVICE_TURN_OFF, service_data = data, blocking = True\<rparr>]\<rparr>
       \<and> map_of data ATTR_ENTITY_ID = Some (PyList [''light.a'', ''light.b'', ''light.a'']))"
proof -
  have ids: "entity_ids dup_group = main_lights dup_group @ aux_lights dup_group"
    by (simp add: dup_group_def init_def)
  have m: "''light.a'' \<in> set (main_lights dup_group)" and a: "''light.a'' \<in> set (aux_lights dup_group)"
    by (simp_all add: dup_group_def init_def)
  note T = duplicate_member_counted_twice [OF ids m a, of dup_hass]
  have "count_list (main_lights dup_group) ''light.a'' + count_list (aux_lights dup_group) ''light.a'' = 2"
    by (simp add: dup_group_def init_def)
  with T [THEN conjunct1] have r1: "count_list (entity_ids dup_group) ''light.a'' = 2"
    by simp
  have r2: "find_state_attributes (snd (get_states_and_on_states dup_group dup_hass)) ATTR_BRIGHTNESS =
       [PyNum (PyInt 100), PyNum (PyInt 106), PyNum (PyInt 100)]"
    by code_simp
  let ?s = "\<lparr>entity_id = ''light.a'', state = ''on'',
            attributes = [(''brightness'', PyNum (PyInt 100))]\<rparr>"
  have s: "hass_states dup_hass ''light.a'' = Some ?s"
    by (simp add: dup_hass_def)
  have on: "state ?s = STATE_ON"
    by (simp add: STATE_ON_def)
  have v: "dict_get (attributes ?s) ATTR_BRIGHTNESS = PyNum (PyInt 100)"
    by (simp add: dict_get_def ATTR_BRIGHTNESS_def)
  then have nn: "dict_get (attributes ?s) ATTR_BRIGHTNESS \<noteq> PyNone"
    by simp
  note M = T [THEN conjunct2, THEN conjunct2, THEN conjunct2, THEN conjunct2, THEN conjunct1,
      THEN spec, THEN mp, OF s]
  note K = M [THEN conjunct2, THEN conjunct2, THEN spec, THEN mp, OF nn, THEN conjunct2, THEN mp, OF on]
  have r3: "2 \<le> count_list (find_state_attributes (snd (get_states_and_on_states dup_group dup_hass))
           ATTR_BRIGHTNESS) (PyNum (PyInt 100))"
    using K unfolding v .
  have r5: "brightness dup_group_updated = PyNum (PyInt 102)"
    by (simp add: dup_group_updated_def)
  have e: "entity_ids dup_group = [''light.a'', ''light.b'', ''light.a'']"
    by (simp add: dup_group_def init_def)
  note r6 = T [THEN conjunct2, THEN conjunct2, THEN conjunct2, THEN conjunct2, THEN conjunct2,
      THEN spec, of "[]", unfolded e]
  from r1 r2 r3 dup_update r5 r6 show ?thesis
    by (intro conjI)
qed


subsection \<open>Exceptions\<close>

lemma ebind_eq_Inl: "ebind m f = Inl e \<longleftrightarrow> m = Inl e \<or> (\<exists>v. m = Inr v \<and> f v = Inl e)"
  by (cases m) simp_all

lemma py_sum_from_Inl: "py_sum_from acc vs = Inl e \<Longrightarrow> e = TypeError"
  by (induction acc vs rule: py_sum_from.induct) simp_all

lemma true_div_Inl: "true_div s n = Inl e \<Longrightarrow> n = 0"
  by (simp add: true_div_def split: if_splits)

lemma mean_int_Inl:
  assumes "args \<noteq> []" and "mean_int args = Inl e"
  shows "e = TypeError"
proof -
  from assms(2) consider "py_sum args = Inl e" | s where "true_div s (length args) = Inl e"
    unfolding mean_int_def ebind_eq_Inl by auto
  then show ?thesis
  proof cases
    case 1
    then show ?thesis unfolding py_sum_def by (rule py_sum_from_Inl)
  next
    case 2
    with assms(1) show ?thesis by (auto dest: true_div_Inl)
  qed
qed

lemma py_iter_Inl: "py_iter v = Inl e \<Longrightarrow> e = TypeError"
  by (cases v) simp_all

lemma sequence_err_Inl: "sequence_err ms = Inl e \<Longrightarrow> Inl e \<in> set ms"
  by (induction ms) (auto simp: ebind_eq_Inl)

lemma sequence_err_all_Inr:
  "\<forall>m \<in> set ms. \<exists>v. m = Inr v \<Longrightarrow> \<exists>vs. sequence_err ms = Inr vs"
  by (induction ms) auto

lemma fold_min_le: "fold min ns (a::nat) \<le> a \<and> (\<forall>n \<in> set ns. fold min ns a \<le> n)"
proof (induction ns arbitrary: a)
  case Nil
  then show ?case by simp
next
  case (Cons n ns)
  from Cons [of "min n a"] show ?case by auto
qed

lemma zip_star_column:
  assumes "l \<in> set (zip_star xss)"
  shows "xss \<noteq> [] \<and> (\<exists>i. (\<forall>xs \<in> set xss. i < length xs) \<and> l = map (\<lambda>xs. xs ! i) xss)"
proof (cases xss)
  case Nil
  with assms show ?thesis by (simp add: zip_star_def)
next
  case (Cons xs rest)
  let ?m = "fold min (map length rest) (length xs)"
  from assms Cons obtain i where i: "i < ?m" and l: "l = map (\<lambda>ys. ys ! i) xss"
    by (auto simp: zip_star_def)
  from fold_min_le [of "map length rest" "length xs"] i have "\<forall>ys \<in> set xss. i < length ys"
    unfolding Cons by auto
  with l Cons show ?thesis by auto
qed

lemma mean_tuple_Inl:
  assumes "mean_tuple args = Inl e"
  shows "e = TypeError"
proof -
  from assms consider (iter) "sequence_err (map py_iter args) = Inl e"
    | (col) iters where "sequence_err (map py_iter args) = Inr iters"
        "sequence_err (map (\<lambda>l. ebind (py_sum l) (\<lambda>s. true_div s (length l))) (zip_star iters)) = Inl e"
    unfolding mean_tuple_def ebind_eq_Inl by auto
  then show ?thesis
  proof cases
    case iter
    from sequence_err_Inl [OF this] obtain v where "py_iter v = Inl e" by auto
    then show ?thesis by (rule py_iter_Inl)
  next
    case col
    from sequence_err_Inl [OF col(2)] obtain l where l: "l \<in> set (zip_star iters)"
      and e: "ebind (py_sum l) (\<lambda>s. true_div s (length l)) = Inl e"
      by auto
    from zip_star_column [OF l] have "l \<noteq> []" by auto
    from e consider "py_sum l = Inl e" | s where "true_div s (length l) = Inl e"
      unfolding ebind_eq_Inl by auto
    then show ?thesis
    proof cases
      case 1
      then show ?thesis unfolding py_sum_def by (rule py_sum_from_Inl)
    next
      case 2
      with \<open>l \<noteq> []\<close> show ?thesis by (auto dest: true_div_Inl)
    qed
  qed
qed

lemma py_lt_Inl: "py_lt a b = Inl e \<Longrightarrow> e = TypeError"
  by (cases a; cases b) simp_all

lemma min_items_Inl: "min_items best items = Inl e \<Longrightarrow> e = TypeError"
  by (induction items arbitrary: best) (auto simp: ebind_eq_Inl dest: py_lt_Inl)

lemma max_items_Inl: "max_items best items = Inl e \<Longrightarrow> e = TypeError"
  by (induction items arbitrary: best) (auto simp: ebind_eq_Inl dest: py_lt_Inl)

lemma py_min_Inl:
  assumes "2 \<le> length args" and "py_min args = Inl e"
  shows "e = TypeError"
proof -
  from assms(1) obtain a b rest where "args = a # b # rest"
    by (cases args; cases "tl args") auto
  with assms(2) have "min_items a (b # rest) = Inl e"
    by (simp add: py_min_def del: min_items.simps)
  then show ?thesis by (rule min_items_Inl)
qed

lemma py_max_Inl:
  assumes "2 \<le> length args" and "py_max args = Inl e"
  shows "e = TypeError"
proof -
  from assms(1) obtain a b rest where "args = a # b # rest"
    by (cases args; cases "tl args") auto
  with assms(2) have "max_items a (b # rest) = Inl e"
    by (simp add: py_max_def del: max_items.simps)
  then show ?thesis by (rule max_items_Inl)
qed

lemma set_union_from_Inl: "set_union_from s others = Inl e \<Longrightarrow> e = TypeError"
  by (induction others arbitrary: s) (auto simp: ebind_eq_Inl dest: py_iter_Inl)

lemma Counter_from_Inl: "Counter_from cnt xs = Inl e \<Longrightarrow> e = TypeError"
  by (induction xs arbitrary: cnt) (auto split: if_splits)

lemma counter_incr_nonempty: "counter_incr x cnt \<noteq> []"
  by (cases cnt) (auto split: if_splits)

lemma Counter_from_nonempty:
  "Counter_from cnt xs = Inr cnt' \<Longrightarrow> cnt \<noteq> [] \<or> xs \<noteq> [] \<Longrightarrow> cnt' \<noteq> []"
  by (induction xs arbitrary: cnt) (auto split: if_splits simp: counter_incr_nonempty)

lemma effect_Inl:
  assumes "xs \<noteq> []"
    and "ebind (Counter xs) (\<lambda>effects_count. case most_common1 effects_count of
                         [] \<Rightarrow> Inl IndexError
                       | (k, c) # others \<Rightarrow> Inr k) = Inl e"
  shows "e = TypeError"
proof -
  from assms(2) consider "Counter xs = Inl e"
    | cnt where "Counter xs = Inr cnt"
        "(case most_common1 cnt of [] \<Rightarrow> Inl IndexError | (k, c) # others \<Rightarrow> Inr k) = Inl e"
    unfolding ebind_eq_Inl by auto
  then show ?thesis
  proof cases
    case 1
    then show ?thesis unfolding Counter_def by (rule Counter_from_Inl)
  next
    case 2
    from Counter_from_nonempty [OF 2(1) [unfolded Counter_def]] assms(1) have "cnt \<noteq> []" by simp
    then obtain item items where "cnt = item # items" by (cases cnt) auto
    with 2(2) show ?thesis
      by (simp add: most_common1_def split: prod.splits)
  qed
qed

lemma merge_supported_features_Inl: "merge_supported_features acc vs = Inl e \<Longrightarrow> e = TypeError"
  by (induction acc vs rule: merge_supported_features.induct) simp_all

lemma reduce_attribute_Inl:
  assumes "\<And>attrs. 2 \<le> length attrs \<Longrightarrow> reduce attrs = Inl e \<Longrightarrow> e = TypeError"
    and "reduce_attribute sts key d reduce = Inl e"
  shows "e = TypeError"
proof -
  let ?attrs = "find_state_attributes sts key"
  from assms(2) have "?attrs \<noteq> []" "length ?attrs \<noteq> 1" and r: "reduce ?attrs = Inl e"
    by (auto simp: reduce_attribute_def Let_def split: if_splits)
  then have "length ?attrs \<noteq> 0" "length ?attrs \<noteq> 1" by simp_all
  then have "2 \<le> length ?attrs" by arith
  from assms(1) [OF this r] show ?thesis .
qed

lemma reduce_attribute_cong:
  assumes "\<And>attrs. 2 \<le> length attrs \<Longrightarrow> reduce attrs = reduce' attrs"
  shows "reduce_attribute sts key d reduce = reduce_attribute sts key d reduce'"
proof -
  let ?attrs = "find_state_attributes sts key"
  have "reduce ?attrs = reduce' ?attrs" if "?attrs \<noteq> []" "length ?attrs \<noteq> 1"
  proof (rule assms)
    from that have "length ?attrs \<noteq> 0" "length ?attrs \<noteq> 1" by simp_all
    then show "2 \<le> length ?attrs" by arith
  qed
  then show ?thesis
    by (auto simp: reduce_attribute_def Let_def)
qed

lemma reduce_mean_int_Inl: "reduce_attribute sts key d mean_int = Inl e \<Longrightarrow> e = TypeError"
proof (erule reduce_attribute_Inl [rotated])
  fix attrs :: "pyval list" assume "2 \<le> length attrs" and e: "mean_int attrs = Inl e"
  then have "attrs \<noteq> []" by auto
  then show "e = TypeError" using e by (rule mean_int_Inl)
qed

lemma reduce_mean_tuple_Inl: "reduce_attribute sts key d mean_tuple = Inl e \<Longrightarrow> e = TypeError"
  by (erule reduce_attribute_Inl [rotated]) (rule mean_tuple_Inl)

lemma reduce_py_min_Inl: "reduce_attribute sts key d py_min = Inl e \<Longrightarrow> e = TypeError"
  by (erule reduce_attribute_Inl [rotated]) (rule py_min_Inl)

lemma reduce_py_max_Inl: "reduce_attribute sts key d py_max = Inl e \<Longrightarrow> e = TypeError"
  by (erule reduce_attribute_Inl [rotated]) (rule py_max_Inl)

lemma effect_list_Inl:
  "(if all_effect_lists \<noteq> []
    then ebind (set_union all_effect_lists) (\<lambda>u. Inr (Some u))
    else Inr None) = Inl e \<Longrightarrow> e = TypeError"
  by (auto simp: set_union_def ebind_eq_Inl split: if_splits dest: set_union_from_Inl)

lemma effect_if_Inl:
  "(if all_effects \<noteq> []
    then ebind (Counter all_effects) (\<lambda>effects_count.
           case most_common1 effects_count of
             [] \<Rightarrow> Inl IndexError
           | (k, c) # others \<Rightarrow> Inr k)
    else Inr PyNone) = Inl e \<Longrightarrow> e = TypeError"
  by (cases "all_effects = []") (auto dest: effect_Inl)

lemma async_update_Inl:
  assumes "async_update lc self hass = Inl e"
  shows "e = TypeError"
  using assms
  unfolding async_update_def Let_def split_beta ebind_eq_Inl [of _ _ e]
  apply (elim disjE exE conjE)
           apply (erule reduce_mean_int_Inl)
          apply (erule reduce_mean_tuple_Inl)
         apply (erule reduce_mean_int_Inl)
        apply (erule reduce_mean_int_Inl)
       apply (erule reduce_py_min_Inl)
      apply (erule reduce_py_max_Inl)
     apply (erule effect_list_Inl)
    apply (erule effect_if_Inl [unfolded split_beta])
   apply (erule merge_supported_features_Inl)
  apply simp
  done


subsection \<open>Totality on typed attributes\<close>

lemma find_state_attributes_mem:
  "v \<in> set (find_state_attributes sts key) \<longleftrightarrow>
     v \<noteq> PyNone \<and> (\<exists>s \<in> set sts. v = dict_get (attributes s) key)"
  by (auto simp: find_state_attributes_def)

lemma typed_gathered:
  assumes "\<forall>s \<in> set sts. dict_get (attributes s) key = PyNone \<or> (\<exists>x. dict_get (attributes s) key = f x)"
  shows "\<exists>xs. find_state_attributes sts key = map f xs"
proof -
  have "\<forall>v \<in> set (find_state_attributes sts key). \<exists>x. v = f x"
  proof
    fix v assume "v \<in> set (find_state_attributes sts key)"
    then obtain s where "v \<noteq> PyNone" "s \<in> set sts" "v = dict_get (attributes s) key"
      unfolding find_state_attributes_mem by blast
    with assms show "\<exists>x. v = f x" by auto
  qed
  then show ?thesis by (simp add: ex_map_conv)
qed

lemma reduce_attribute_total:
  assumes "2 \<le> length (find_state_attributes sts key) \<Longrightarrow>
      \<exists>r. reduce (find_state_attributes sts key) = Inr r"
  shows "\<exists>r. reduce_attribute sts key d reduce = Inr r"
proof -
  let ?attrs = "find_state_attributes sts key"
  consider "?attrs = []" | "length ?attrs = 1" | "2 \<le> length ?attrs"
    by (cases ?attrs; cases "tl ?attrs") auto
  then show ?thesis
  proof cases
    case 1
    then show ?thesis by (simp add: reduce_attribute_def)
  next
    case 2
    then show ?thesis by (auto simp: reduce_attribute_def Let_def)
  next
    case 3
    with assms show ?thesis by (simp add: reduce_attribute_many)
  qed
qed

lemma reduce_mean_int_total:
  assumes "find_state_attributes sts key = map PyNum ns"
  shows "\<exists>r. reduce_attribute sts key d mean_int = Inr r"
proof (rule reduce_attribute_total)
  assume "2 \<le> length (find_state_attributes sts key)"
  then have "ns \<noteq> []" using assms by auto
  from mean_int_nums [OF this] show "\<exists>r. mean_int (find_state_attributes sts key) = Inr r"
    unfolding assms by blast
qed

lemma mean_tuple_total: "\<exists>r. mean_tuple (map PyTuple nss) = Inr r"
proof -
  have it: "map py_iter (map PyTuple nss) = map (\<lambda>ns. Inr (map PyNum ns)) nss"
    by simp
  have "\<exists>v. ebind (py_sum l) (\<lambda>s. true_div s (length l)) = Inr v"
    if "l \<in> set (zip_star (map (map PyNum) nss))" for l
  proof -
    from zip_star_column [OF that] obtain i where ne: "nss \<noteq> []"
      and i: "\<forall>xs \<in> set (map (map PyNum) nss). i < length xs"
      and l: "l = map (\<lambda>xs. xs ! i) (map (map PyNum) nss)"
      by auto
    have "l = map PyNum (map (\<lambda>ns. ns ! i) nss)"
      unfolding l using i by (auto simp: comp_def)
    moreover from ne have "map (\<lambda>ns. ns ! i) nss \<noteq> []" by simp
    ultimately show ?thesis
      using column_mean [of "map (\<lambda>ns. ns ! i) nss"] by auto
  qed
  then have "\<forall>m \<in> set (map (\<lambda>l. ebind (py_sum l) (\<lambda>s. true_div s (length l)))
      (zip_star (map (map PyNum) nss))). \<exists>v. m = Inr v"
    by auto
  from sequence_err_all_Inr [OF this] show ?thesis
    unfolding mean_tuple_def it sequence_err_map_Inr by auto
qed

lemma reduce_mean_tuple_total:
  assumes "find_state_attributes sts key = map PyTuple nss"
  shows "\<exists>r. reduce_attribute sts key d mean_tuple = Inr r"
  using mean_tuple_total [of nss] assms by (auto simp: reduce_attribute_def Let_def)

lemma reduce_py_min_total:
  assumes "find_state_attributes sts key = map PyNum ns"
  shows "\<exists>r. reduce_attribute sts key d py_min = Inr r"
proof (rule reduce_attribute_total)
  assume "2 \<le> length (find_state_attributes sts key)"
  then have "2 \<le> length ns" using assms by auto
  from py_min_nums [OF this] show "\<exists>r. py_min (find_state_attributes sts key) = Inr r"
    unfolding assms by blast
qed

lemma reduce_py_max_total:
  assumes "find_state_attributes sts key = map PyNum ns"
  shows "\<exists>r. reduce_attribute sts key d py_max = Inr r"
proof (rule reduce_attribute_total)
  assume "2 \<le> length (find_state_attributes sts key)"
  then have "2 \<le> length ns" using assms by auto
  from py_max_nums [OF this] show "\<exists>r. py_max (find_state_attributes sts key) = Inr r"
    unfolding assms by blast
qed

lemma effect_list_total:
  assumes "all_effect_lists = map PyList ls"
  shows "\<exists>r. (if all_effect_lists \<noteq> []
    then ebind (set_union all_effect_lists) (\<lambda>u. Inr (Some u))
    else Inr None) = Inr r"
  using set_union_lists [of ls] assms by auto

lemma effect_total:
  assumes "all_effects = map PyStr es"
  shows "\<exists>r. (if all_effects \<noteq> []
    then ebind (Counter all_effects) (\<lambda>effects_count.
           case most_common1 effects_count of
             [] \<Rightarrow> Inl IndexError
           | (k, c) # others \<Rightarrow> Inr k)
    else Inr PyNone) = Inr r"
proof (cases "all_effects = []")
  case True
  then show ?thesis by simp
next
  case False
  have "\<forall>x \<in> set all_effects. \<exists>s. x = PyStr s" using assms by auto
  from most_common_strs [OF this False] show ?thesis using False by auto
qed

lemma merge_supported_features_total:
  "merge_supported_features acc (map (\<lambda>m. PyNum (PyInt m)) masks) = Inr (fold (\<lambda>m a. a OR m) masks acc)"
  by (induction masks arbitrary: acc) simp_all

lemma async_update_typed:
  assumes "\<forall>s \<in> set (fst (get_states_and_on_states self hass)).
        (\<forall>key \<in> {ATTR_BRIGHTNESS, ATTR_WHITE_VALUE, ATTR_COLOR_TEMP, ATTR_MIN_MIREDS, ATTR_MAX_MIREDS}.
            dict_get (attributes s) key = PyNone \<or> (\<exists>n. dict_get (attributes s) key = PyNum n))
      \<and> (dict_get (attributes s) ATTR_HS_COLOR = PyNone
          \<or> (\<exists>ns. dict_get (attributes s) ATTR_HS_COLOR = PyTuple ns))
      \<and> (dict_get (attributes s) ATTR_EFFECT_LIST = PyNone
          \<or> (\<exists>l. dict_get (attributes s) ATTR_EFFECT_LIST = PyList l))
      \<and> (dict_get (attributes s) ATTR_EFFECT = PyNone
          \<or> (\<exists>e. dict_get (attributes s) ATTR_EFFECT = PyStr e))
      \<and> (dict_get (attributes s) ATTR_SUPPORTED_FEATURES = PyNone
          \<or> (\<exists>m. dict_get (attributes s) ATTR_SUPPORTED_FEATURES = PyNum (PyInt m)))"
  shows "\<exists>self'. async_update lc self hass = Inr self'"
proof -
  let ?states = "fst (get_states_and_on_states self hass)"
  let ?on = "snd (get_states_and_on_states self hass)"
  have sub: "set ?on \<subseteq> set ?states"
    by (auto simp: get_states_and_on_states_eq)
  have num: "\<exists>ns. find_state_attributes sts key = map PyNum ns"
    if "set sts \<subseteq> set ?states"
      "key \<in> {ATTR_BRIGHTNESS, ATTR_WHITE_VALUE, ATTR_COLOR_TEMP, ATTR_MIN_MIREDS, ATTR_MAX_MIREDS}"
    for sts key
    using assms that by (intro typed_gathered) blast
  have hs: "\<exists>nss. find_state_attributes ?on ATTR_HS_COLOR = map PyTuple nss"
    using assms sub by (intro typed_gathered) blast
  have el: "\<exists>ls. find_state_attributes ?states ATTR_EFFECT_LIST = map PyList ls"
    using assms by (intro typed_gathered) blast
  have ef: "\<exists>es. find_state_attributes ?on ATTR_EFFECT = map PyStr es"
    using assms sub by (intro typed_gathered) blast
  have sf: "\<exists>ms. find_state_attributes ?states ATTR_SUPPORTED_FEATURES = map (\<lambda>m. PyNum (PyInt m)) ms"
    using assms by (intro typed_gathered) blast
  from num [OF sub, of ATTR_BRIGHTNESS] obtain b where
    b: "reduce_attribute ?on ATTR_BRIGHTNESS PyNone mean_int = Inr b"
    using reduce_mean_int_total by blast
  from hs obtain h where h: "reduce_attribute ?on ATTR_HS_COLOR PyNone mean_tuple = Inr h"
    using reduce_mean_tuple_total by blast
  from num [OF sub, of ATTR_WHITE_VALUE] obtain w where
    w: "reduce_attribute ?on ATTR_WHITE_VALUE PyNone mean_int = Inr w"
    using reduce_mean_int_total by blast
  from num [OF sub, of ATTR_COLOR_TEMP] obtain c where
    c: "reduce_attribute ?on ATTR_COLOR_TEMP PyNone mean_int = Inr c"
    using reduce_mean_int_total by blast
  from num [OF subset_refl, of ATTR_MIN_MIREDS] obtain mn where
    mn: "reduce_attribute ?states ATTR_MIN_MIREDS (PyNum (PyInt 154)) py_min = Inr mn"
    using reduce_py_min_total by blast
  from num [OF subset_refl, of ATTR_MAX_MIREDS] obtain mx where
    mx: "reduce_attribute ?states ATTR_MAX_MIREDS (PyNum (PyInt 500)) py_max = Inr mx"
    using reduce_py_max_total by blast
  from el obtain l where l: "(if find_state_attributes ?states ATTR_EFFECT_LIST \<noteq> []
        then ebind (set_union (find_state_attributes ?states ATTR_EFFECT_LIST)) (\<lambda>u. Inr (Some u))
        else Inr None) = Inr l"
    using effect_list_total by blast
  from ef obtain e where e: "(if find_state_attributes ?on ATTR_EFFECT \<noteq> []
        then ebind (Counter (find_state_attributes ?on ATTR_EFFECT))
               (\<lambda>effects_count. case most_common1 effects_count of
                         [] \<Rightarrow> Inl IndexError
                       | (k, c) # others \<Rightarrow> Inr k)
        else Inr PyNone) = Inr e"
    using effect_total by blast
  from sf obtain ms where
    "find_state_attributes ?states ATTR_SUPPORTED_FEATURES = map (\<lambda>m. PyNum (PyInt m)) ms"
    by blast
  then have f: "merge_supported_features 0 (find_state_attributes ?states ATTR_SUPPORTED_FEATURES) =
      Inr (fold (\<lambda>m a. a OR m) ms 0)"
    by (simp add: merge_supported_features_total)
  show ?thesis
    unfolding async_update_def Let_def split_beta b h w c mn mx l e [unfolded split_beta] f ebind_Inr
    by blast
qed





end
